(* ===== verification/Prelude.thy ===== *)
theory Prelude
  imports Main "HOL-Library.Multiset" "HOL-Library.Sublist"
begin

text \<open>
  Shared vocabulary of the development: the type of Discord user ids, the reading of a
  Redis counter as a Python integer (\<open>int(r.get(k) or 0)\<close>), the model of
  \<open>random.choice\<close> as an index oracle, the \<open>named_theorems\<close> collections the
  component theories fill, and generic list and multiset lemmas they share.
\<close>

type_synonym user_id = nat

named_theorems store_simps "equations of the Redis store adapter, unfolded in handler proofs"
named_theorems inv_simps "definitions of the well-formedness invariants"

text \<open>
  \<open>int(r.get(key) or 0)\<close>: a missing key reads as \<open>None\<close>, which \<open>or 0\<close> turns into 0.
\<close>

definition get_or0 :: "int option \<Rightarrow> int" where
  "get_or0 v = (case v of None \<Rightarrow> 0 | Some n \<Rightarrow> n)"

text \<open>
  \<open>random.choice(seq)\<close> is \<open>seq[randbelow(len(seq))]\<close>. The random source is an
  oracle: the model takes the drawn number \<open>k\<close> and indexes with \<open>k mod len(seq)\<close>, so
  every element can be drawn and no other. The code calls it on non-empty lists only.
\<close>

definition py_choice :: "'a list \<Rightarrow> nat \<Rightarrow> 'a" where
  "py_choice xs k = xs ! (k mod length xs)"

subsection \<open>Generic lemmas\<close>

lemma get_or0_simps [simp]:
  "get_or0 None = 0"
  "get_or0 (Some n) = n"
  by (simp_all add: get_or0_def)

lemma py_choice_in [simp]: "xs \<noteq> [] \<Longrightarrow> py_choice xs k \<in> set xs"
  by (simp add: py_choice_def)

lemma py_choice_surj: "i < length xs \<Longrightarrow> py_choice xs i = xs ! i"
  by (simp add: py_choice_def)

lemma py_choice_any: "x \<in> set xs \<Longrightarrow> \<exists>k. py_choice xs k = x"
  by (metis in_set_conv_nth py_choice_surj)

lemma mset_remove1_add [simp]: "x \<in> set xs \<Longrightarrow> mset (remove1 x xs) + {#x#} = mset xs"
  by (simp add: mset_remove1)

lemma in_set_remove1D: "x \<in> set (remove1 y xs) \<Longrightarrow> x \<in> set xs"
  using set_remove1_subset by fast

lemma length_remove1_in: "x \<in> set xs \<Longrightarrow> Suc (length (remove1 x xs)) = length xs"
  using length_pos_if_in_set [of x xs] by (simp add: length_remove1)

lemma upt_append: "i \<le> j \<Longrightarrow> j \<le> k \<Longrightarrow> [i..<j] @ [j..<k] = [i..<k]"
  using upt_add_eq_append [of i j "k - j"] by simp

lemma nat_max_diff: "0 \<le> c \<Longrightarrow> nat (max 0 (int n - c)) = n - nat c"
  by (simp add: max_def nat_diff_distrib')

lemma length_le_diff_Nil [simp]: "0 < k \<Longrightarrow> length xs \<le> length xs - k \<longleftrightarrow> xs = []"
  by (cases xs) auto

text \<open>A list whose multiset is part of that of a distinct list is distinct.\<close>

lemma distinct_mset_part: "mset xs = mset ys + mset zs \<Longrightarrow> distinct xs \<Longrightarrow> distinct zs"
proof -
  assume eq: "mset xs = mset ys + mset zs" and d: "distinct xs"
  have "count (mset zs) x \<le> 1" for x
  proof -
    have "count (mset zs) x \<le> count (mset xs) x" by (simp add: eq)
    also have "\<dots> \<le> 1" using d by (simp add: distinct_count_atmost_1)
    finally show ?thesis .
  qed
  then show ?thesis
    unfolding distinct_count_atmost_1
    using count_mset_gt_0 [of _ zs] by (metis One_nat_def Suc_leI antisym count_mset_0_iff)
qed

lemma prefix_drop_append:
  "prefix a b \<Longrightarrow> prefix b c \<Longrightarrow> drop (length a) c = drop (length a) b @ drop (length b) c"
  by (auto elim!: prefixE)

end
