(* ===== verification/Redis.thy ===== *)
theory Redis
  imports Prelude
begin

text \<open>
  The Redis commands the bot issues through \<open>redis-py\<close>, as the Redis server executes
  them (\<open>t_string.c\<close>, \<open>t_list.c\<close>): \<open>INCRBY\<close>/\<open>DECRBY\<close> (and \<open>INCR\<close>,
  \<open>DECR\<close>) on 64-bit signed counters with their overflow checks, \<open>LRANGE\<close> with
  Python-like negative indices, \<open>LREM\<close> with a signed count, \<open>RPUSH\<close>, \<open>DEL\<close>.
  Each command is atomic on the server; a missing key reads as 0 or as the empty list.
  The server is not code of this repository: these definitions follow the Redis
  documentation and server source, and the bot's calls are modelled through them.
\<close>

datatype redis_error =
    NotInteger  \<comment> \<open>ERR value is not an integer or out of range\<close>
  | Overflow    \<comment> \<open>ERR increment or decrement would overflow\<close>

definition int64_min :: int where
  "int64_min = - (2 ^ 63)"

definition int64_max :: int where
  "int64_max = 2 ^ 63 - 1"

definition in_int64 :: "int \<Rightarrow> bool" where
  "in_int64 n \<longleftrightarrow> int64_min \<le> n \<and> n \<le> int64_max"

text \<open>
  \<open>incrDecrCommand\<close>: the increment must parse as a 64-bit integer; the overflow test is
  Redis's own, written on the old value and the increment.
\<close>

definition redis_incrby :: "int option \<Rightarrow> int \<Rightarrow> redis_error + int" where
  "redis_incrby v incr =
     (if \<not> in_int64 incr then Inl NotInteger
      else let old = get_or0 v in
        if (incr < 0 \<and> old < 0 \<and> incr < int64_min - old) \<or>
           (0 < incr \<and> 0 < old \<and> incr > int64_max - old)
        then Inl Overflow else Inr (old + incr))"

text \<open>\<open>decrbyCommand\<close>: the negation of \<open>LLONG_MIN\<close> is refused before the increment.\<close>

definition redis_decrby :: "int option \<Rightarrow> int \<Rightarrow> redis_error + int" where
  "redis_decrby v decr =
     (if \<not> in_int64 decr then Inl NotInteger
      else if decr = int64_min then Inl Overflow
      else redis_incrby v (- decr))"

text \<open>
  \<open>LRANGE key start stop\<close>: negative indices count from the end, the start is clamped at
  0, an empty range gives the empty list and the stop is clamped at the last element.
\<close>

definition redis_lrange :: "'a list \<Rightarrow> int \<Rightarrow> int \<Rightarrow> 'a list" where
  "redis_lrange xs start stop =
     (let llen = int (length xs);
          s = (if start < 0 then llen + start else start);
          e = (if stop < 0 then llen + stop else stop);
          s = (if s < 0 then 0 else s)
      in if s > e \<or> s \<ge> llen then []
         else let e = (if e \<ge> llen then llen - 1 else e)
              in take (nat (e - s + 1)) (drop (nat s) xs))"

text \<open>The reference reading of \<open>LRANGE\<close> in the Redis documentation: the elements whose
  index lies between the normalised start and stop, both included.\<close>

definition lrange_ref :: "'a list \<Rightarrow> int \<Rightarrow> int \<Rightarrow> 'a list" where
  "lrange_ref xs start stop =
     (let n = int (length xs);
          s = (if start < 0 then n + start else start);
          e = (if stop < 0 then n + stop else stop)
      in map (nth xs) (filter (\<lambda>i. s \<le> int i \<and> int i \<le> e) [0..<length xs]))"

text \<open>
  \<open>LREM key count value\<close>: a positive count removes that many occurrences from the head,
  a negative one from the tail, zero removes all.
\<close>

fun lrem_head :: "nat \<Rightarrow> 'a \<Rightarrow> 'a list \<Rightarrow> 'a list" where
  "lrem_head 0 x ys = ys"
| "lrem_head (Suc k) x [] = []"
| "lrem_head (Suc k) x (y # ys) = (if y = x then lrem_head k x ys else y # lrem_head (Suc k) x ys)"

definition redis_lrem :: "int \<Rightarrow> 'a \<Rightarrow> 'a list \<Rightarrow> 'a list" where
  "redis_lrem cnt x xs =
     (if cnt = 0 then filter (\<lambda>y. y \<noteq> x) xs
      else if 0 < cnt then lrem_head (nat cnt) x xs
      else rev (lrem_head (nat (- cnt)) x (rev xs)))"

definition redis_rpush :: "'a list \<Rightarrow> 'a list \<Rightarrow> 'a list" where
  "redis_rpush xs vs = xs @ vs"

subsection \<open>Counters\<close>

lemma in_int64_0 [simp]: "in_int64 0"
  and in_int64_1 [simp]: "in_int64 1"
  and in_int64_m1 [simp]: "in_int64 (- 1)"
  by (simp_all add: in_int64_def int64_min_def int64_max_def)

lemma in_int64_get_or0_None [simp]: "in_int64 (get_or0 None)"
  by simp

text \<open>
  On a stored value that is itself a 64-bit integer, Redis's overflow test is exactly
  "the sum leaves the 64-bit range".
\<close>

lemma redis_incrby_range:
  assumes "in_int64 (get_or0 v)"
  shows "redis_incrby v d =
           (if \<not> in_int64 d then Inl NotInteger
            else if in_int64 (get_or0 v + d) then Inr (get_or0 v + d) else Inl Overflow)"
  using assms by (auto simp: redis_incrby_def in_int64_def int64_min_def int64_max_def Let_def)

lemma redis_incrby_Inr:
  assumes "in_int64 (get_or0 v)" and "redis_incrby v d = Inr n"
  shows "n = get_or0 v + d \<and> in_int64 n"
  using assms by (simp add: redis_incrby_range split: if_splits)

lemma redis_decrby_Inr:
  assumes "in_int64 (get_or0 v)" and "redis_decrby v d = Inr n"
  shows "n = get_or0 v - d \<and> in_int64 n"
proof -
  from assms(2) have "redis_incrby v (- d) = Inr n"
    by (simp add: redis_decrby_def split: if_splits)
  with assms(1) show ?thesis
    using redis_incrby_Inr [of v "- d" n] by auto
qed

lemma redis_incrby_Inl:
  "in_int64 (get_or0 v) \<Longrightarrow> in_int64 d \<Longrightarrow> \<not> in_int64 (get_or0 v + d) \<Longrightarrow>
   redis_incrby v d = Inl Overflow"
  by (simp add: redis_incrby_range)

lemma redis_decr_pos:
  "0 < get_or0 v \<Longrightarrow> in_int64 (get_or0 v) \<Longrightarrow> redis_incrby v (- 1) = Inr (get_or0 v - 1)"
  by (simp add: redis_incrby_range in_int64_def int64_min_def)

subsection \<open>Lists\<close>

text \<open>\<open>LRANGE key start -1\<close> is the suffix from the (normalised) start.\<close>

lemma redis_lrange_suffix:
  "redis_lrange xs start (- 1) =
     drop (nat (if start < 0 then max 0 (int (length xs) + start) else start)) xs"
  by (auto simp: redis_lrange_def Let_def min_def)

lemma redis_lrange_all [simp]: "redis_lrange xs 0 (- 1) = xs"
  by (simp add: redis_lrange_suffix)

lemma lrem_head_one [simp]: "lrem_head (Suc 0) x xs = remove1 x xs"
  by (induction xs) auto

lemma redis_lrem_one [simp]: "redis_lrem 1 x xs = remove1 x xs"
  by (simp add: redis_lrem_def)

lemma filter_upt_interval:
  "filter (\<lambda>i. lo \<le> i \<and> i < hi) [0..<n] = [lo..<min hi n]"
proof (induction n)
  case (Suc n)
  then show ?case
    by (cases "hi \<le> n") (auto simp: min_def not_le le_Suc_eq)
qed simp

lemma map_nth_upt:
  "hi \<le> length xs \<Longrightarrow> map (nth xs) [lo..<hi] = take (hi - lo) (drop lo xs)"
proof (induction hi)
  case 0
  then show ?case by simp
next
  case (Suc hi)
  then show ?case
    by (cases "lo \<le> hi") (auto simp: take_Suc_conv_app_nth Suc_diff_le)
qed

lemma int_interval_nat:
  "(s \<le> int i \<and> int i \<le> e) \<longleftrightarrow> (nat (max 0 s) \<le> i \<and> i < nat (e + 1))"
  by auto

lemma nat_interval_len: "0 \<le> s \<Longrightarrow> s \<le> e \<Longrightarrow> nat (e - s + 1) = nat (e + 1) - nat s"
  by (simp add: nat_diff_distrib' [symmetric] algebra_simps)

text \<open>The model of the server's \<open>LRANGE\<close> (clamping the start at 0 and the stop at the
  last element, then slicing) agrees with the documented reading.\<close>

lemma redis_lrange_ref: "redis_lrange xs start stop = lrange_ref xs start stop"
proof -
  define n where "n = int (length xs)"
  define s where "s = (if start < 0 then n + start else start)"
  define e where "e = (if stop < 0 then n + stop else stop)"
  have ref: "lrange_ref xs start stop =
      map (nth xs) [nat (max 0 s)..<min (nat (e + 1)) (length xs)]"
    by (simp add: lrange_ref_def Let_def n_def [symmetric] s_def [symmetric] e_def [symmetric]
        int_interval_nat filter_upt_interval)
  have imp: "redis_lrange xs start stop =
      (if max 0 s > e \<or> max 0 s \<ge> n then []
       else take (nat (min e (n - 1) - max 0 s + 1)) (drop (nat (max 0 s)) xs))"
    by (simp add: redis_lrange_def Let_def n_def [symmetric] s_def [symmetric] e_def [symmetric]
        max_def min_def)
  show ?thesis
    unfolding ref imp
    by (auto simp: map_nth_upt n_def min_def max_def nat_interval_len not_less)
qed

declare redis_rpush_def [simp]

end
