(* ===== verification/Decimal.thy ===== *)
theory Decimal
  imports Prelude
begin

text \<open>
  The two conversions between integers and strings in src/bot.py: \<open>str(i)\<close> builds the
  reward identifiers pushed by \<open>reset\<close> and the user id written into a history entry;
  \<open>int(x)\<close> reads them back in \<open>remaining\<close> (\<open>list(map(int, rewards))\<close>) and reads
  Redis counters. Python's \<open>int()\<close> on a string strips whitespace, takes an optional
  sign and a run of decimal digits, possibly grouped by single underscores, and raises
  \<open>ValueError\<close> otherwise, here \<open>None\<close>. Strings are byte lists, so Python's
  non-ASCII digits and spaces are outside the model.
\<close>

definition digit_char :: "nat \<Rightarrow> char" where
  "digit_char d = char_of (48 + d)"

text \<open>\<open>str(n)\<close> for \<open>n \<ge> 0\<close>: the decimal digits, most significant first.\<close>

fun nat_str :: "nat \<Rightarrow> string" where
  "nat_str n = (if n < 10 then [digit_char n] else nat_str (n div 10) @ [digit_char (n mod 10)])"

declare nat_str.simps [simp del]

definition is_digit :: "char \<Rightarrow> bool" where
  "is_digit c \<longleftrightarrow> (48::nat) \<le> of_char c \<and> of_char c \<le> (57::nat)"

definition digit_val :: "char \<Rightarrow> nat" where
  "digit_val c = of_char c - 48"

definition digits_nat :: "string \<Rightarrow> nat" where
  "digits_nat ds = foldl (\<lambda>acc c. 10 * acc + digit_val c) 0 ds"

text \<open>\<open>str.isspace\<close> on one byte: tab, newline, vertical tab, form feed, carriage return,
  the separators 0x1c to 0x1f and space.\<close>

definition py_space :: "char \<Rightarrow> bool" where
  "py_space c \<longleftrightarrow> of_char c \<in> {9, 10, 11, 12, 13, 28, 29, 30, 31, 32 :: nat}"

definition py_strip :: "string \<Rightarrow> string" where
  "py_strip s = rev (dropWhile py_space (rev (dropWhile py_space s)))"

text \<open>A non-empty run of digits in which single underscores may separate digits.\<close>

fun digit_groups :: "string \<Rightarrow> bool" where
  "digit_groups [] = False"
| "digit_groups [c] = is_digit c"
| "digit_groups (c # d # cs) =
     (is_digit c \<and> (if d = CHR ''_'' then digit_groups cs else digit_groups (d # cs)))"

definition py_int :: "string \<Rightarrow> int option" where
  "py_int s =
     (let t = py_strip s;
          body = (\<lambda>r. if digit_groups r then Some (int (digits_nat (filter is_digit r))) else None)
      in case t of
           [] \<Rightarrow> None
         | c # r \<Rightarrow>
             if c = CHR ''-'' then map_option uminus (body r)
             else if c = CHR ''+'' then body r
             else body t)"

subsection \<open>Digits\<close>

lemma is_digit_char [simp]: "d < 10 \<Longrightarrow> is_digit (digit_char d)"
  by (simp add: is_digit_def digit_char_def)

lemma digit_val_char [simp]: "d < 10 \<Longrightarrow> digit_val (digit_char d) = d"
  by (simp add: digit_val_def digit_char_def)

lemma not_space_digit [simp]: "is_digit c \<Longrightarrow> \<not> py_space c"
  by (auto simp: is_digit_def py_space_def)

lemma digit_not_sign [simp]:
  "is_digit c \<Longrightarrow> c \<noteq> CHR ''-''"
  "is_digit c \<Longrightarrow> c \<noteq> CHR ''+''"
  "is_digit c \<Longrightarrow> c \<noteq> CHR ''_''"
  by (auto simp: is_digit_def)

lemma digits_nat_snoc [simp]: "digits_nat (ds @ [c]) = 10 * digits_nat ds + digit_val c"
  by (simp add: digits_nat_def)

lemma nat_str_digits: "\<forall>c \<in> set (nat_str n). is_digit c"
proof (induction n rule: nat_str.induct)
  case (1 n)
  then show ?case by (simp add: nat_str.simps [of n])
qed

lemma nat_str_not_Nil [simp]: "nat_str n \<noteq> []"
  by (simp add: nat_str.simps [of n])

lemma digits_nat_nat_str [simp]: "digits_nat (nat_str n) = n"
proof (induction n rule: nat_str.induct)
  case (1 n)
  show ?case
  proof (cases "n < 10")
    case True
    then show ?thesis by (simp add: nat_str.simps [of n] digits_nat_def)
  next
    case False
    with "1.IH" show ?thesis by (simp add: nat_str.simps [of n])
  qed
qed

lemma digit_groups_all_digits: "xs \<noteq> [] \<Longrightarrow> \<forall>c \<in> set xs. is_digit c \<Longrightarrow> digit_groups xs"
  by (induction xs rule: digit_groups.induct) auto

lemma py_strip_digits: "\<forall>c \<in> set xs. is_digit c \<Longrightarrow> py_strip xs = xs"
proof -
  assume d: "\<forall>c \<in> set xs. is_digit c"
  then have "dropWhile py_space xs = xs"
    by (cases xs) auto
  moreover from d have "dropWhile py_space (rev xs) = rev xs"
    by (cases "rev xs") (auto dest: arg_cong [where f = set])
  ultimately show ?thesis by (simp add: py_strip_def)
qed

subsection \<open>Round trip\<close>

lemma py_int_digits:
  assumes "xs \<noteq> []" and "\<forall>c \<in> set xs. is_digit c"
  shows "py_int xs = Some (int (digits_nat xs))"
proof -
  from assms obtain c r where xs: "xs = c # r" by (cases xs) auto
  with assms have "is_digit c" by simp
  moreover have "filter is_digit xs = xs" using assms(2) by simp
  ultimately show ?thesis
    using assms xs by (simp add: py_int_def py_strip_digits digit_groups_all_digits)
qed

text \<open>\<open>int(str(n)) = n\<close> for every \<open>n \<ge> 0\<close>: the identifiers \<open>reset\<close> writes and the
  user ids the bot formats read back as the numbers they were made from.\<close>

lemma py_int_nat_str_eq: "py_int (nat_str n) = Some (int n)"
  using nat_str_digits [of n] by (simp add: py_int_digits)

lemma nat_str_inj: "nat_str m = nat_str n \<longleftrightarrow> m = n"
  by (metis digits_nat_nat_str)

end
