(* ===== verification/Store.thy ===== *)
theory Store
  imports Redis Decimal
begin

text \<open>
  The bot keeps all its state in Redis (src/bot.py, the module-level client \<open>r\<close>).
  The keyspace it uses is the record \<open>store\<close>:
  \<^item> \<open>tickets:<id>\<close>, a counter per user, is the map \<open>tickets\<close>;
  \<^item> \<open>shards:<id>\<close>, a counter per user, is the map \<open>shards\<close>;
  \<^item> the list \<open>rewards:remaining\<close> of reward identifiers (strings) is \<open>remaining\<close>;
  \<^item> the list \<open>rewards:history\<close> of JSON entries \<open>{"user": .., "reward": ..}\<close> is
    \<open>history\<close>, one \<open>hist_entry\<close> per JSON object (both fields strings).
  A missing key is \<open>None\<close> or the empty list. Each adapter operation below is one Redis
  command on one of these keys, as the handlers issue it; the handlers compose them.
  Errors a handler can raise are \<open>error\<close>: a Redis error reply (raised by redis-py
  as \<open>ResponseError\<close>) or Python's \<open>ValueError\<close> from \<open>int()\<close>.
\<close>

datatype hist_entry = HistEntry (entry_user: string) (entry_reward: string)

record store =
  tickets :: "user_id \<Rightarrow> int option"
  shards :: "user_id \<Rightarrow> int option"
  remaining :: "string list"
  history :: "hist_entry list"

definition empty_store :: store where
  "empty_store = \<lparr>tickets = Map.empty, shards = Map.empty, remaining = [], history = []\<rparr>"

datatype error = RedisError redis_error | ValueError

text \<open>
  What a handler answers (the message sent with \<open>interaction.response.send_message\<close>),
  by its content; the wording and emoji are presentation and are not modelled.
\<close>

datatype reply =
    NoTicket
  | NoRewardsLeft
  | Won string
  | TicketAdded user_id
  | NoRewardsToShow
  | RewardsSummary "(string \<times> nat) list" "int list option"
  | ResetDone
  | NoHistory
  | HistoryList "hist_entry list"
  | NoWinners
  | WinnersList "hist_entry list"
  | AmountNotPositive
  | ShardsTooFew user_id int int
  | ShardsGiven int user_id int
  | ShardsRemoved int user_id int
  | ShardsTotal int

subsection \<open>Store adapter: one Redis command each\<close>

text \<open>\<open>r.incr(f"tickets:{member.id}")\<close> and \<open>r.decr(f"tickets:{user_id}")\<close>.\<close>

definition incr_tickets :: "user_id \<Rightarrow> store \<Rightarrow> redis_error + store" where
  "incr_tickets u s =
     (case redis_incrby (tickets s u) 1 of
        Inl e \<Rightarrow> Inl e
      | Inr n \<Rightarrow> Inr (s\<lparr>tickets := (tickets s)(u \<mapsto> n)\<rparr>))"

definition decr_tickets :: "user_id \<Rightarrow> store \<Rightarrow> redis_error + store" where
  "decr_tickets u s =
     (case redis_incrby (tickets s u) (- 1) of
        Inl e \<Rightarrow> Inl e
      | Inr n \<Rightarrow> Inr (s\<lparr>tickets := (tickets s)(u \<mapsto> n)\<rparr>))"

text \<open>\<open>r.incrby(f"shards:{member.id}", amount)\<close> and \<open>r.decrby(...)\<close>.\<close>

definition incrby_shards :: "user_id \<Rightarrow> int \<Rightarrow> store \<Rightarrow> redis_error + store" where
  "incrby_shards u a s =
     (case redis_incrby (shards s u) a of
        Inl e \<Rightarrow> Inl e
      | Inr n \<Rightarrow> Inr (s\<lparr>shards := (shards s)(u \<mapsto> n)\<rparr>))"

definition decrby_shards :: "user_id \<Rightarrow> int \<Rightarrow> store \<Rightarrow> redis_error + store" where
  "decrby_shards u a s =
     (case redis_decrby (shards s u) a of
        Inl e \<Rightarrow> Inl e
      | Inr n \<Rightarrow> Inr (s\<lparr>shards := (shards s)(u \<mapsto> n)\<rparr>))"

text \<open>\<open>r.lrem("rewards:remaining", 1, reward)\<close>, \<open>r.delete("rewards:remaining")\<close>,
  \<open>r.rpush("rewards:remaining", *vs)\<close> and \<open>r.rpush("rewards:history", e)\<close>.\<close>

definition lrem_remaining :: "string \<Rightarrow> store \<Rightarrow> store" where
  "lrem_remaining x s = s\<lparr>remaining := redis_lrem 1 x (remaining s)\<rparr>"

definition del_remaining :: "store \<Rightarrow> store" where
  "del_remaining s = s\<lparr>remaining := []\<rparr>"

definition rpush_remaining :: "string list \<Rightarrow> store \<Rightarrow> store" where
  "rpush_remaining vs s = s\<lparr>remaining := redis_rpush (remaining s) vs\<rparr>"

definition rpush_history :: "hist_entry \<Rightarrow> store \<Rightarrow> store" where
  "rpush_history e s = s\<lparr>history := redis_rpush (history s) [e]\<rparr>"

subsection \<open>The adapter on well-formed counters\<close>

text \<open>
  A counter map is well formed when every stored value is a non-negative 64-bit integer:
  the bot never stores anything else, and the handler invariants rest on it.
\<close>

definition counters_ok :: "(user_id \<Rightarrow> int option) \<Rightarrow> bool" where
  "counters_ok m \<longleftrightarrow> (\<forall>n \<in> ran m. 0 \<le> n \<and> n \<le> int64_max)"

declare lrem_remaining_def [store_simps] del_remaining_def [store_simps]
  rpush_remaining_def [store_simps] rpush_history_def [store_simps]

lemma counters_ok_empty [simp]: "counters_ok Map.empty"
  by (simp add: counters_ok_def)

lemma counters_ok_get:
  "counters_ok m \<Longrightarrow> 0 \<le> get_or0 (m u) \<and> get_or0 (m u) \<le> int64_max"
  by (cases "m u") (auto simp: counters_ok_def ran_def int64_max_def)

lemma counters_ok_in_int64 [simp]: "counters_ok m \<Longrightarrow> in_int64 (get_or0 (m u))"
  using counters_ok_get [of m u] by (simp add: in_int64_def int64_min_def)

lemma counters_ok_upd:
  "counters_ok m \<Longrightarrow> 0 \<le> n \<Longrightarrow> n \<le> int64_max \<Longrightarrow> counters_ok (m(u \<mapsto> n))"
  by (auto simp: counters_ok_def ran_def)

lemma counters_ok_sub [simp]:
  "counters_ok m \<Longrightarrow> 0 \<le> d \<Longrightarrow> d \<le> get_or0 (m u) \<Longrightarrow> counters_ok (m(u \<mapsto> get_or0 (m u) - d))"
  using counters_ok_get [of m u] by (simp add: counters_ok_upd)

lemma counters_ok_add [simp]:
  "counters_ok m \<Longrightarrow> 0 \<le> d \<Longrightarrow> get_or0 (m u) + d \<le> int64_max \<Longrightarrow>
   counters_ok (m(u \<mapsto> get_or0 (m u) + d))"
  using counters_ok_get [of m u] by (simp add: counters_ok_upd)

text \<open>Each counter command on a well-formed map, by the outcome Redis gives.\<close>

lemma incr_tickets_eq [store_simps]:
  "counters_ok (tickets s) \<Longrightarrow>
   incr_tickets u s =
     (if get_or0 (tickets s u) < int64_max
      then Inr (s\<lparr>tickets := (tickets s)(u \<mapsto> get_or0 (tickets s u) + 1)\<rparr>)
      else Inl Overflow)"
  using counters_ok_get [of "tickets s" u]
  by (auto simp: incr_tickets_def redis_incrby_range in_int64_def int64_min_def int64_max_def)

lemma decr_tickets_pos [store_simps]:
  "counters_ok (tickets s) \<Longrightarrow> 0 < get_or0 (tickets s u) \<Longrightarrow>
   decr_tickets u s = Inr (s\<lparr>tickets := (tickets s)(u \<mapsto> get_or0 (tickets s u) - 1)\<rparr>)"
  by (simp add: decr_tickets_def redis_decr_pos)

lemma incrby_shards_eq [store_simps]:
  "counters_ok (shards s) \<Longrightarrow>
   incrby_shards u a s =
     (if \<not> in_int64 a then Inl NotInteger
      else if in_int64 (get_or0 (shards s u) + a)
      then Inr (s\<lparr>shards := (shards s)(u \<mapsto> get_or0 (shards s u) + a)\<rparr>)
      else Inl Overflow)"
  by (simp add: incrby_shards_def redis_incrby_range)

lemma decrby_shards_eq [store_simps]:
  "counters_ok (shards s) \<Longrightarrow> 0 < a \<Longrightarrow> a \<le> get_or0 (shards s u) \<Longrightarrow>
   decrby_shards u a s = Inr (s\<lparr>shards := (shards s)(u \<mapsto> get_or0 (shards s u) - a)\<rparr>)"
  using counters_ok_get [of "shards s" u]
  by (simp add: decrby_shards_def redis_decrby_def redis_incrby_range in_int64_def
      int64_min_def int64_max_def)

lemma incrby_shards_Inr:
  assumes "counters_ok (shards s)" and "incrby_shards u a s = Inr s'"
  shows "s' = s\<lparr>shards := (shards s)(u \<mapsto> get_or0 (shards s u) + a)\<rparr>
         \<and> get_or0 (shards s u) + a \<le> int64_max"
proof -
  from assms have i: "in_int64 (get_or0 (shards s u) + a)"
    and e: "s' = s\<lparr>shards := (shards s)(u \<mapsto> get_or0 (shards s u) + a)\<rparr>"
    by (simp_all add: incrby_shards_eq split: if_split_asm)
  from i have "get_or0 (shards s u) + a \<le> int64_max" by (simp add: in_int64_def)
  with e show ?thesis ..
qed

end
