(* ===== verification/Gacha.thy ===== *)
theory Gacha
  imports Store
begin

text \<open>
  The redemption handler \<open>gacha\<close> (src/bot.py, lines 31-55): read the caller's ticket
  counter, refuse when it is not positive, decrement it, read the whole reward pool,
  answer "No rewards left" when it is empty, otherwise draw one reward with
  \<open>random.choice\<close>, remove one occurrence of it from the pool and append a history entry.
  The Redis commands run one after the other with no \<open>await\<close> between them, so in one
  bot process the handler is one atomic step of the event loop (Interleave.thy studies
  several clients). The announcement in the reward channel is output only.
\<close>

definition gacha :: "user_id \<Rightarrow> nat \<Rightarrow> store \<Rightarrow> error + (store \<times> reply)" where
  "gacha uid pick s =
     (let n = get_or0 (tickets s uid) in
      if n \<le> 0 then Inr (s, NoTicket)
      else case decr_tickets uid s of
        Inl e \<Rightarrow> Inl (RedisError e)
      | Inr s1 \<Rightarrow>
          let rewards = redis_lrange (remaining s1) 0 (- 1) in
          if rewards = [] then Inr (s1, NoRewardsLeft)
          else
            let reward = py_choice rewards pick;
                s2 = lrem_remaining reward s1;
                s3 = rpush_history (HistEntry (nat_str uid) reward) s2
            in Inr (s3, Won reward))"

text \<open>The store after a successful draw of \<open>r\<close> by \<open>u\<close>.\<close>

definition gacha_won_store :: "user_id \<Rightarrow> string \<Rightarrow> store \<Rightarrow> store" where
  "gacha_won_store u r s =
     s\<lparr>tickets := (tickets s)(u \<mapsto> get_or0 (tickets s u) - 1),
       remaining := remove1 r (remaining s),
       history := history s @ [HistEntry (nat_str u) r]\<rparr>"

subsection \<open>The handler, branch by branch\<close>

lemma gacha_eq:
  assumes "counters_ok (tickets s)"
  shows "gacha u k s =
    (if get_or0 (tickets s u) \<le> 0 then Inr (s, NoTicket)
     else if remaining s = []
     then Inr (s\<lparr>tickets := (tickets s)(u \<mapsto> get_or0 (tickets s u) - 1)\<rparr>, NoRewardsLeft)
     else Inr (gacha_won_store u (py_choice (remaining s) k) s, Won (py_choice (remaining s) k)))"
  using assms
  by (simp add: gacha_def gacha_won_store_def store_simps Let_def)

lemma gacha_Inr_cases:
  assumes "gacha u k s = Inr (s', rep)"
  obtains (no_ticket) "get_or0 (tickets s u) \<le> 0" "s' = s" "rep = NoTicket"
  | (empty) "0 < get_or0 (tickets s u)" "remaining s = []" "remaining s' = []"
      "history s' = history s" "shards s' = shards s"
      "tickets s' = (tickets s)(u \<mapsto> get_or0 (tickets s u) - 1)" "rep = NoRewardsLeft"
  | (won) "0 < get_or0 (tickets s u)" "remaining s \<noteq> []"
      "s' = gacha_won_store u (py_choice (remaining s) k) s"
      "rep = Won (py_choice (remaining s) k)"
  using assms
  by (auto simp: gacha_def gacha_won_store_def decr_tickets_def store_simps Let_def
      redis_incrby_def split: if_splits sum.splits)

subsection \<open>Properties\<close>

text \<open>C3: a caller whose ticket counter is missing or not positive is refused and
  nothing is written.\<close>

theorem gacha_no_ticket:
  "get_or0 (tickets s u) \<le> 0 \<Longrightarrow> gacha u k s = Inr (s, NoTicket)"
  by (simp add: gacha_def)

theorem gacha_no_ticket_witness:
  "get_or0 (tickets empty_store 1) \<le> 0 \<and> gacha 1 0 empty_store = Inr (empty_store, NoTicket)"
  using gacha_no_ticket [of empty_store 1 0] by (simp add: empty_store_def)

text \<open>C4: with a ticket and a non-empty pool, the caller's counter goes down by one,
  exactly one occurrence of the drawn reward leaves the pool, one history entry
  naming the caller and the reward is appended, and the reward came from the pool.\<close>

theorem gacha_win:
  assumes "counters_ok (tickets s)" and "0 < get_or0 (tickets s u)" and "remaining s \<noteq> []"
  shows "gacha u k s = Inr (gacha_won_store u (py_choice (remaining s) k) s,
                            Won (py_choice (remaining s) k))
         \<and> py_choice (remaining s) k \<in> set (remaining s)"
  using assms by (simp add: gacha_eq)

theorem gacha_win_witness:
  "counters_ok [1 \<mapsto> 1] \<and> 0 < get_or0 ([1 \<mapsto> (1::int)] 1) \<and> [''5'', ''9''] \<noteq> []
   \<and> gacha 1 3 \<lparr>tickets = [1 \<mapsto> 1], shards = Map.empty, remaining = [''5'', ''9''], history = []\<rparr>
      = Inr (\<lparr>tickets = [1 \<mapsto> 0], shards = Map.empty, remaining = [''5''],
              history = [HistEntry ''1'' ''9'']\<rparr>, Won ''9'')"
proof -
  let ?s = "\<lparr>tickets = [1 \<mapsto> 1], shards = Map.empty, remaining = [''5'', ''9''], history = []\<rparr>"
  have ok: "counters_ok [1 \<mapsto> (1::int)]" by (simp add: counters_ok_def int64_max_def)
  have "gacha 1 3 ?s = Inr (gacha_won_store 1 (py_choice [''5'', ''9''] 3) ?s,
                           Won (py_choice [''5'', ''9''] 3))"
    using gacha_win [of ?s 1 3] ok by simp
  moreover have "py_choice [''5'', ''9''] 3 = ''9''" by code_simp
  moreover have "nat_str 1 = ''1''" by code_simp
  ultimately show ?thesis using ok by (simp add: gacha_won_store_def)
qed

text \<open>C5: with a ticket and an empty pool the ticket is consumed and not given back: the
  handler answers "No rewards left" with the caller's counter one lower. The spec
  (section 4.4) requires the ticket to be refunded in this case.\<close>

theorem gacha_empty_pool_loses_ticket:
  assumes "counters_ok (tickets s)" and "0 < get_or0 (tickets s u)" and "remaining s = []"
  shows "\<exists>s'. gacha u k s = Inr (s', NoRewardsLeft)
              \<and> get_or0 (tickets s' u) = get_or0 (tickets s u) - 1
              \<and> remaining s' = remaining s \<and> history s' = history s"
  using assms by (simp add: gacha_eq)

theorem gacha_empty_pool_loses_ticket_witness:
  "counters_ok [2 \<mapsto> 1] \<and> 0 < get_or0 ([2 \<mapsto> (1::int)] 2)
   \<and> gacha 2 0 \<lparr>tickets = [2 \<mapsto> 1], shards = Map.empty, remaining = [], history = []\<rparr>
      = Inr (\<lparr>tickets = [2 \<mapsto> 0], shards = Map.empty, remaining = [], history = []\<rparr>,
             NoRewardsLeft)"
proof -
  let ?s = "\<lparr>tickets = [2 \<mapsto> 1], shards = Map.empty, remaining = [], history = []\<rparr>"
  have ok: "counters_ok [2 \<mapsto> (1::int)]" by (simp add: counters_ok_def int64_max_def)
  obtain s' where "gacha 2 0 ?s = Inr (s', NoRewardsLeft)" and "get_or0 (tickets s' 2) = 0"
    and "remaining s' = []" and "history s' = []"
    using gacha_empty_pool_loses_ticket [of ?s 2 0] ok by auto
  moreover have "gacha 2 0 ?s = Inr (?s\<lparr>tickets := [2 \<mapsto> 0]\<rparr>, NoRewardsLeft)"
    using ok by (simp add: gacha_eq)
  ultimately show ?thesis using ok by simp
qed

text \<open>Conservation of rewards: the pool before is the pool after plus the rewards of the
  history entries the handler appended, as multisets, and history only grows.\<close>

lemma gacha_conserves:
  assumes "gacha u k s = Inr (s', rep)"
  shows "mset (remaining s) =
           mset (remaining s') + mset (map entry_reward (drop (length (history s)) (history s')))
         \<and> prefix (history s) (history s')"
  using assms
proof (cases rule: gacha_Inr_cases)
  case won
  then show ?thesis by (simp add: gacha_won_store_def)
qed simp_all

text \<open>C17: every reward in the pool can be drawn: for each of them some value of the
  random source makes the handler award exactly it.\<close>

theorem gacha_every_reward_drawable:
  assumes "counters_ok (tickets s)" and "0 < get_or0 (tickets s u)" and "r \<in> set (remaining s)"
  shows "\<exists>k. gacha u k s = Inr (gacha_won_store u r s, Won r)"
proof -
  obtain k where k: "py_choice (remaining s) k = r"
    using py_choice_any [OF assms(3)] by blast
  have "remaining s \<noteq> []"
    using assms(3) by (cases "remaining s") simp_all
  then have "gacha u k s = Inr (gacha_won_store u (py_choice (remaining s) k) s,
                                Won (py_choice (remaining s) k))"
    using assms(1,2) by (simp add: gacha_eq)
  then have "gacha u k s = Inr (gacha_won_store u r s, Won r)"
    by (simp only: k)
  then show ?thesis by (rule exI)
qed

theorem gacha_every_reward_drawable_witness:
  "counters_ok [1 \<mapsto> 2] \<and> 0 < get_or0 ([1 \<mapsto> (2::int)] 1) \<and> ''7'' \<in> set [''3'', ''7'']
   \<and> (\<exists>k. gacha 1 k \<lparr>tickets = [1 \<mapsto> 2], shards = Map.empty, remaining = [''3'', ''7''],
                      history = []\<rparr>
            = Inr (\<lparr>tickets = [1 \<mapsto> 1], shards = Map.empty, remaining = [''3''],
                    history = [HistEntry ''1'' ''7'']\<rparr>, Won ''7''))"
proof -
  let ?s = "\<lparr>tickets = [1 \<mapsto> 2], shards = Map.empty, remaining = [''3'', ''7''], history = []\<rparr>"
  have ok: "counters_ok [1 \<mapsto> (2::int)]" by (simp add: counters_ok_def int64_max_def)
  have "\<exists>k. gacha 1 k ?s = Inr (gacha_won_store 1 ''7'' ?s, Won ''7'')"
    using gacha_every_reward_drawable [of ?s 1 "''7''"] ok by simp
  moreover have "nat_str 1 = ''1''" by code_simp
  ultimately show ?thesis using ok by (simp add: gacha_won_store_def)
qed

end
