(* ===== verification/Tickets.thy ===== *)
theory Tickets
  imports Store
begin

text \<open>
  The administrative ticket grant \<open>add_ticket\<close> (src/bot.py, lines 58-62): one
  \<open>INCR\<close> of the member's ticket counter. The consumption side of the ticket ledger is the
  \<open>DECR\<close> in \<open>gacha\<close> (Gacha.thy).
\<close>

definition add_ticket :: "user_id \<Rightarrow> store \<Rightarrow> error + (store \<times> reply)" where
  "add_ticket member s =
     (case incr_tickets member s of
        Inl e \<Rightarrow> Inl (RedisError e)
      | Inr s' \<Rightarrow> Inr (s', TicketAdded member))"

lemma add_ticket_eq:
  "counters_ok (tickets s) \<Longrightarrow>
   add_ticket u s =
     (if get_or0 (tickets s u) < int64_max
      then Inr (s\<lparr>tickets := (tickets s)(u \<mapsto> get_or0 (tickets s u) + 1)\<rparr>, TicketAdded u)
      else Inl (RedisError Overflow))"
  by (simp add: add_ticket_def incr_tickets_eq)

subsection \<open>Properties\<close>

text \<open>C23: granting a ticket adds exactly one to the member's counter (a missing counter
  becomes 1) and touches nothing else; only a counter already at the 64-bit maximum makes
  Redis refuse, and then nothing changes.\<close>

theorem add_ticket_grants_one:
  assumes "counters_ok (tickets s)"
  shows "(get_or0 (tickets s u) < int64_max \<longrightarrow>
            add_ticket u s =
              Inr (s\<lparr>tickets := (tickets s)(u \<mapsto> get_or0 (tickets s u) + 1)\<rparr>, TicketAdded u))
         \<and> (get_or0 (tickets s u) = int64_max \<longrightarrow> add_ticket u s = Inl (RedisError Overflow))"
  using assms by (simp add: add_ticket_eq)

theorem add_ticket_grants_one_witness:
  "counters_ok (tickets empty_store)
   \<and> add_ticket 5 empty_store = Inr (empty_store\<lparr>tickets := [5 \<mapsto> 1]\<rparr>, TicketAdded 5)"
proof -
  have ok: "counters_ok (tickets empty_store)" by (simp add: empty_store_def)
  from add_ticket_grants_one [OF ok, of 5] ok show ?thesis
    by (simp add: empty_store_def int64_max_def)
qed

end
