(* ===== verification/Pool.thy ===== *)
theory Pool
  imports Store
begin

text \<open>
  The reward pool's administrative handlers: \<open>reset\<close> (src/bot.py, lines 91-101)
  deletes the list \<open>rewards:remaining\<close> and pushes the 200 identifiers "1" to "200";
  \<open>remaining\<close> (lines 65-88) reads the pool, converts every element with \<open>int()\<close>,
  counts it into five bands and adds the sorted list when at most ten remain. The history
  list is left alone by \<open>reset\<close>.
\<close>

definition initial_rewards :: "string list" where
  "initial_rewards =
     [''1'', ''2'', ''3'', ''4'', ''5'']
     @ map nat_str [6..<11]
     @ map nat_str [11..<21]
     @ map nat_str [21..<51]
     @ map nat_str [51..<201]"

definition reset :: "store \<Rightarrow> error + (store \<times> reply)" where
  "reset s = Inr (rpush_remaining initial_rewards (del_remaining s), ResetDone)"

text \<open>\<open>list(map(int, rewards))\<close>: the first element that is not an integer raises.\<close>

fun parse_ints :: "string list \<Rightarrow> int list option" where
  "parse_ints [] = Some []"
| "parse_ints (x # xs) =
     (case py_int x of
        None \<Rightarrow> None
      | Some n \<Rightarrow> map_option (Cons n) (parse_ints xs))"

text \<open>\<open>sum(1 for x in rewards_int if lo <= x <= hi)\<close>.\<close>

definition band_count :: "int \<Rightarrow> int \<Rightarrow> int list \<Rightarrow> nat" where
  "band_count lo hi xs = length (filter (\<lambda>x. lo \<le> x \<and> x \<le> hi) xs)"

definition reward_bands :: "(string \<times> int \<times> int) list" where
  "reward_bands =
     [(''1-5'', 1, 5), (''6-10'', 6, 10), (''11-20'', 11, 20), (''21-50'', 21, 50),
      (''51-200'', 51, 200)]"

definition summarize :: "int list \<Rightarrow> (string \<times> nat) list" where
  "summarize xs = map (\<lambda>(g, lo, hi). (g, band_count lo hi xs)) reward_bands"

definition remaining_rewards :: "store \<Rightarrow> error + (store \<times> reply)" where
  "remaining_rewards s =
     (let rewards = redis_lrange (remaining s) 0 (- 1) in
      if rewards = [] then Inr (s, NoRewardsToShow)
      else case parse_ints rewards of
             None \<Rightarrow> Inl ValueError
           | Some rewards_int \<Rightarrow>
               Inr (s, RewardsSummary (summarize rewards_int)
                         (if length rewards_int \<le> 10 then Some (sort rewards_int) else None)))"

subsection \<open>The reset list\<close>

lemma initial_rewards_eq: "initial_rewards = map nat_str [1..<201]"
proof -
  have a: "[''1'', ''2'', ''3'', ''4'', ''5''] = map nat_str [1..<6]"
    by code_simp
  have b: "[1..<6] @ [6..<11] @ [11..<21] @ [21..<51] @ [51..<201] = [1..<(201::nat)]"
  proof -
    have e1: "[21..<51] @ [51..<201] = [(21::nat)..<201]" by (rule upt_append) simp_all
    have e2: "[11..<21] @ [21..<201] = [(11::nat)..<201]" by (rule upt_append) simp_all
    have e3: "[6..<11] @ [11..<201] = [(6::nat)..<201]" by (rule upt_append) simp_all
    have e4: "[1..<6] @ [6..<201] = [(1::nat)..<201]" by (rule upt_append) simp_all
    show ?thesis by (simp only: e1 e2 e3 e4)
  qed
  show ?thesis
    unfolding initial_rewards_def by (simp only: a map_append [symmetric] b)
qed

lemma distinct_initial_rewards: "distinct initial_rewards"
  by (simp add: initial_rewards_eq distinct_map inj_on_def nat_str_inj)

lemma length_initial_rewards: "length initial_rewards = 200"
  by (simp add: initial_rewards_eq)

lemma parse_ints_map_nat_str [simp]: "parse_ints (map nat_str ns) = Some (map int ns)"
  by (induction ns) (simp_all add: py_int_nat_str_eq)

lemma parse_ints_length: "parse_ints xs = Some ys \<Longrightarrow> length ys = length xs"
  by (induction xs arbitrary: ys) (auto split: option.splits)

text \<open>Every element of the pool that came from \<open>reset\<close> parses, to a value in 1..200.\<close>

lemma parse_ints_subset:
  assumes "set xs \<subseteq> set initial_rewards"
  shows "\<exists>ys. parse_ints xs = Some ys \<and> set ys \<subseteq> {1..200}"
  using assms
proof (induction xs)
  case Nil
  then show ?case by simp
next
  case (Cons x xs)
  then obtain ys where ys: "parse_ints xs = Some ys" "set ys \<subseteq> {1..200}" by auto
  from Cons.prems obtain n where "x = nat_str n" "1 \<le> n" "n < 201"
    by (auto simp: initial_rewards_eq)
  with ys show ?case by (simp add: py_int_nat_str_eq)
qed

lemma summarize_total:
  "set xs \<subseteq> {1..200} \<Longrightarrow> sum_list (map snd (summarize xs)) = length xs"
  by (induction xs) (auto simp: summarize_def reward_bands_def band_count_def)

lemma reset_eq: "reset s = Inr (s\<lparr>remaining := map nat_str [1..<201]\<rparr>, ResetDone)"
  by (simp add: reset_def store_simps initial_rewards_eq)

subsection \<open>Properties\<close>

text \<open>C20: \<open>reset\<close> replaces the pool by the 200 distinct identifiers "1" to "200" and
  changes nothing else; in particular the history is kept.\<close>

theorem reset_pool:
  "reset s = Inr (s', rep) \<Longrightarrow>
     rep = ResetDone \<and> remaining s' = map nat_str [1..<201] \<and> distinct (remaining s')
     \<and> length (remaining s') = 200
     \<and> tickets s' = tickets s \<and> shards s' = shards s \<and> history s' = history s"
  using distinct_initial_rewards length_initial_rewards
  by (auto simp: reset_eq initial_rewards_eq)

theorem reset_pool_witness:
  "reset empty_store = Inr (empty_store\<lparr>remaining := map nat_str [1..<201]\<rparr>, ResetDone)
   \<and> distinct (map nat_str [1..<201])
   \<and> tickets (empty_store\<lparr>remaining := map nat_str [1..<201]\<rparr>) = tickets empty_store"
proof -
  have h: "reset empty_store = Inr (empty_store\<lparr>remaining := map nat_str [1..<201]\<rparr>, ResetDone)"
    by (simp add: reset_eq)
  from reset_pool [OF h] show ?thesis using h by simp
qed

text \<open>C21: \<open>reset\<close> followed by \<open>remaining\<close> reports the band counts 5, 5, 10, 30, 150 and no
  detail list (spec, section 8).\<close>

theorem reset_then_summary:
  "reset s = Inr (s', rep) \<Longrightarrow>
   remaining_rewards s' =
     Inr (s', RewardsSummary
                [(''1-5'', 5), (''6-10'', 5), (''11-20'', 10), (''21-50'', 30), (''51-200'', 150)]
                None)"
proof -
  assume "reset s = Inr (s', rep)"
  then have s': "remaining s' = map nat_str [1..<201]"
    by (auto simp: reset_eq)
  have "summarize (map int [1..<201]) =
          [(''1-5'', 5), (''6-10'', 5), (''11-20'', 10), (''21-50'', 30), (''51-200'', 150)]"
    by code_simp
  with s' show ?thesis
    by (simp add: remaining_rewards_def)
qed

theorem reset_then_summary_witness:
  "reset empty_store = Inr (empty_store\<lparr>remaining := map nat_str [1..<201]\<rparr>, ResetDone)
   \<and> remaining_rewards (empty_store\<lparr>remaining := map nat_str [1..<201]\<rparr>) =
       Inr (empty_store\<lparr>remaining := map nat_str [1..<201]\<rparr>,
            RewardsSummary [(''1-5'', 5), (''6-10'', 5), (''11-20'', 10), (''21-50'', 30),
                            (''51-200'', 150)] None)"
proof -
  have h: "reset empty_store = Inr (empty_store\<lparr>remaining := map nat_str [1..<201]\<rparr>, ResetDone)"
    by (simp add: reset_eq)
  from reset_then_summary [OF h] h show ?thesis by simp
qed

text \<open>C22: on a pool filled by \<open>reset\<close>, \<open>remaining\<close> is read-only, never raises, its band
  counts add up to the size of the pool, and it lists the pool in ascending order exactly
  when at most ten rewards remain.\<close>

theorem remaining_rewards_summary:
  assumes "set (remaining s) \<subseteq> set initial_rewards" and "remaining s \<noteq> []"
  shows "\<exists>ys. parse_ints (remaining s) = Some ys
           \<and> remaining_rewards s =
               Inr (s, RewardsSummary (summarize ys)
                         (if length (remaining s) \<le> 10 then Some (sort ys) else None))
           \<and> sum_list (map snd (summarize ys)) = length (remaining s)"
proof -
  from parse_ints_subset [OF assms(1)] obtain ys
    where ys: "parse_ints (remaining s) = Some ys" "set ys \<subseteq> {1..200}" by blast
  from ys(1) have "length ys = length (remaining s)" by (rule parse_ints_length)
  with ys assms(2) show ?thesis
    by (simp add: remaining_rewards_def summarize_total)
qed

theorem remaining_rewards_summary_witness:
  "set [''3'', ''1''] \<subseteq> set initial_rewards \<and> [''3'', ''1''] \<noteq> []
   \<and> remaining_rewards (empty_store\<lparr>remaining := [''3'', ''1'']\<rparr>) =
       Inr (empty_store\<lparr>remaining := [''3'', ''1'']\<rparr>,
            RewardsSummary [(''1-5'', 2), (''6-10'', 0), (''11-20'', 0), (''21-50'', 0),
                            (''51-200'', 0)] (Some [1, 3]))"
proof -
  let ?s = "empty_store\<lparr>remaining := [''3'', ''1'']\<rparr>"
  have sub: "set [''3'', ''1''] \<subseteq> set initial_rewards"
    by (simp add: initial_rewards_def)
  then obtain ys where "parse_ints [''3'', ''1''] = Some ys"
    and r: "remaining_rewards ?s = Inr (?s, RewardsSummary (summarize ys)
                         (if length [''3'', ''1''] \<le> 10 then Some (sort ys) else None))"
    using remaining_rewards_summary [of ?s] by auto
  moreover have "parse_ints [''3'', ''1''] = Some [3, 1]" by code_simp
  moreover have "summarize [3, 1] = [(''1-5'', 2), (''6-10'', 0), (''11-20'', 0), (''21-50'', 0),
                            (''51-200'', 0)]" by code_simp
  ultimately show ?thesis using sub by simp
qed

text \<open>An element of the pool that \<open>int()\<close> does not accept makes \<open>remaining\<close> raise.\<close>

lemma remaining_rewards_value_error:
  "remaining s \<noteq> [] \<Longrightarrow> parse_ints (remaining s) = None \<Longrightarrow>
   remaining_rewards s = Inl ValueError"
  by (simp add: remaining_rewards_def)

end
