(* ===== verification/Shards.thy ===== *)
theory Shards
  imports Store
begin

text \<open>
  The shard ledger (src/bot.py, lines 127-160): \<open>give_shards\<close> refuses a non-positive
  amount, otherwise \<open>INCRBY\<close> and reads the new total back; \<open>remove_shards\<close> refuses a
  non-positive amount, reads the current balance, refuses an amount above it, otherwise
  \<open>DECRBY\<close> and reads the total back; \<open>shards\<close> reads the caller's balance.
\<close>

definition give_shards :: "user_id \<Rightarrow> int \<Rightarrow> store \<Rightarrow> error + (store \<times> reply)" where
  "give_shards member amount s =
     (if amount \<le> 0 then Inr (s, AmountNotPositive)
      else case incrby_shards member amount s of
             Inl e \<Rightarrow> Inl (RedisError e)
           | Inr s' \<Rightarrow>
               let total = get_or0 (shards s' member)
               in Inr (s', ShardsGiven amount member total))"

definition remove_shards :: "user_id \<Rightarrow> int \<Rightarrow> store \<Rightarrow> error + (store \<times> reply)" where
  "remove_shards member amount s =
     (if amount \<le> 0 then Inr (s, AmountNotPositive)
      else
        let current = get_or0 (shards s member) in
        if current < amount then Inr (s, ShardsTooFew member current amount)
        else case decrby_shards member amount s of
               Inl e \<Rightarrow> Inl (RedisError e)
             | Inr s' \<Rightarrow>
                 let total = get_or0 (shards s' member)
                 in Inr (s', ShardsRemoved amount member total))"

definition check_shards :: "user_id \<Rightarrow> store \<Rightarrow> error + (store \<times> reply)" where
  "check_shards uid s = Inr (s, ShardsTotal (get_or0 (shards s uid)))"

lemma give_shards_eq:
  "counters_ok (shards s) \<Longrightarrow>
   give_shards u a s =
     (if a \<le> 0 then Inr (s, AmountNotPositive)
      else if \<not> in_int64 a then Inl (RedisError NotInteger)
      else if in_int64 (get_or0 (shards s u) + a)
      then Inr (s\<lparr>shards := (shards s)(u \<mapsto> get_or0 (shards s u) + a)\<rparr>,
                ShardsGiven a u (get_or0 (shards s u) + a))
      else Inl (RedisError Overflow))"
  by (simp add: give_shards_def incrby_shards_eq Let_def)

lemma remove_shards_eq:
  "counters_ok (shards s) \<Longrightarrow>
   remove_shards u a s =
     (if a \<le> 0 then Inr (s, AmountNotPositive)
      else if get_or0 (shards s u) < a then Inr (s, ShardsTooFew u (get_or0 (shards s u)) a)
      else Inr (s\<lparr>shards := (shards s)(u \<mapsto> get_or0 (shards s u) - a)\<rparr>,
                ShardsRemoved a u (get_or0 (shards s u) - a)))"
  by (simp add: remove_shards_def decrby_shards_eq Let_def)

subsection \<open>Properties\<close>

text \<open>C25: a non-positive amount is refused by both administrative shard commands, and
  the store is unchanged.\<close>

theorem shards_nonpositive_refused:
  "a \<le> 0 \<Longrightarrow>
   give_shards u a s = Inr (s, AmountNotPositive) \<and> remove_shards u a s = Inr (s, AmountNotPositive)"
  by (simp add: give_shards_def remove_shards_def)

theorem shards_nonpositive_refused_witness:
  "(- 5 :: int) \<le> 0
   \<and> give_shards 3 (- 5) empty_store = Inr (empty_store, AmountNotPositive)
   \<and> remove_shards 3 (- 5) empty_store = Inr (empty_store, AmountNotPositive)"
  using shards_nonpositive_refused [of "- 5" 3 empty_store] by simp

text \<open>C26: a positive credit adds the amount and reports the new total; a credit that
  would pass the 64-bit maximum is refused by Redis and raises, with nothing written.\<close>

theorem give_shards_credits:
  assumes "counters_ok (shards s)" and "0 < a"
  shows "(in_int64 (get_or0 (shards s u) + a) \<longrightarrow>
            give_shards u a s =
              Inr (s\<lparr>shards := (shards s)(u \<mapsto> get_or0 (shards s u) + a)\<rparr>,
                   ShardsGiven a u (get_or0 (shards s u) + a)))
         \<and> (int64_max < get_or0 (shards s u) + a \<longrightarrow>
            (\<exists>e. give_shards u a s = Inl (RedisError e)))"
  using assms counters_ok_get [of "shards s" u]
  by (auto simp: give_shards_eq in_int64_def int64_min_def int64_max_def)

theorem give_shards_credits_witness:
  "counters_ok (shards empty_store) \<and> (0::int) < 10
   \<and> give_shards 3 10 empty_store =
       Inr (empty_store\<lparr>shards := [3 \<mapsto> 10]\<rparr>, ShardsGiven 10 3 10)"
proof -
  have ok: "counters_ok (shards empty_store)" by (simp add: empty_store_def)
  from give_shards_credits [OF ok, of 10 3] ok show ?thesis
    by (simp add: empty_store_def in_int64_def int64_min_def int64_max_def)
qed

text \<open>C27: a debit larger than the balance is refused with the balance unchanged (no partial
  debit); any other positive debit subtracts exactly the amount and leaves a non-negative
  balance.\<close>

theorem remove_shards_debits:
  assumes "counters_ok (shards s)" and "0 < a"
  shows "(get_or0 (shards s u) < a \<longrightarrow>
            remove_shards u a s = Inr (s, ShardsTooFew u (get_or0 (shards s u)) a))
         \<and> (a \<le> get_or0 (shards s u) \<longrightarrow>
            remove_shards u a s =
              Inr (s\<lparr>shards := (shards s)(u \<mapsto> get_or0 (shards s u) - a)\<rparr>,
                   ShardsRemoved a u (get_or0 (shards s u) - a))
            \<and> 0 \<le> get_or0 (shards s u) - a)"
  using assms by (simp add: remove_shards_eq)

theorem remove_shards_debits_witness:
  "counters_ok [3 \<mapsto> 10] \<and> (0::int) < 15 \<and> (0::int) < 4
   \<and> remove_shards 3 15 (empty_store\<lparr>shards := [3 \<mapsto> 10]\<rparr>) =
       Inr (empty_store\<lparr>shards := [3 \<mapsto> 10]\<rparr>, ShardsTooFew 3 10 15)
   \<and> remove_shards 3 4 (empty_store\<lparr>shards := [3 \<mapsto> 10]\<rparr>) =
       Inr (empty_store\<lparr>shards := [3 \<mapsto> 6]\<rparr>, ShardsRemoved 4 3 6)"
proof -
  let ?s = "empty_store\<lparr>shards := [3 \<mapsto> 10]\<rparr>"
  have ok: "counters_ok (shards ?s)" by (simp add: counters_ok_def int64_max_def)
  from remove_shards_debits [OF ok, of 15 3] remove_shards_debits [OF ok, of 4 3] ok
  show ?thesis by simp
qed

end
