(* ===== verification/History.thy ===== *)
theory History
  imports Store
begin

text \<open>
  The history queries (src/bot.py, lines 104-124): \<open>rewards\<close> shows
  \<open>LRANGE rewards:history -10 -1\<close>, \<open>last_winners\<close> shows
  \<open>LRANGE rewards:history -count -1\<close> with \<open>count\<close> (here \<open>cnt\<close>) defaulting to 5; both answer a
  fixed message when the range is empty. The JSON entries are decoded with
  \<open>json.loads\<close>; the model keeps them decoded (\<open>hist_entry\<close>).
\<close>

definition rewards_history :: "store \<Rightarrow> error + (store \<times> reply)" where
  "rewards_history s =
     (let h = redis_lrange (history s) (- 10) (- 1) in
      if h = [] then Inr (s, NoHistory) else Inr (s, HistoryList h))"

definition last_winners :: "int \<Rightarrow> store \<Rightarrow> error + (store \<times> reply)" where
  "last_winners cnt s =
     (let h = redis_lrange (history s) (- cnt) (- 1) in
      if h = [] then Inr (s, NoWinners) else Inr (s, WinnersList h))"

lemma last_winners_eq:
  "last_winners c s =
     (let h = drop (if 0 < c then length (history s) - nat c else nat (- c)) (history s)
      in if h = [] then Inr (s, NoWinners) else Inr (s, WinnersList h))"
  by (simp add: last_winners_def redis_lrange_suffix nat_max_diff)

subsection \<open>Properties\<close>

text \<open>C30: the personal \<open>rewards\<close> view shows the last ten entries of the whole history,
  oldest first, whoever asks: it is not restricted to the caller's own entries as the
  spec's "history (self)" command is.\<close>

theorem rewards_history_last10:
  "rewards_history s =
     (if history s = [] then Inr (s, NoHistory)
      else Inr (s, HistoryList (drop (length (history s) - 10) (history s))))"
  using nat_max_diff [of 10 "length (history s)"]
  by (simp add: rewards_history_def redis_lrange_suffix)

text \<open>C31: \<open>last_winners count\<close> for a positive count shows the last \<open>count\<close> entries
  (all of them when fewer), oldest first.\<close>

theorem last_winners_suffix:
  "0 < c \<Longrightarrow>
   last_winners c s =
     (if history s = [] then Inr (s, NoWinners)
      else Inr (s, WinnersList (drop (length (history s) - nat c) (history s))))"
  by (simp add: last_winners_eq)

text \<open>After five redemptions \<open>last_winners 3\<close> shows the three most recent, oldest first
  (spec, section 8).\<close>

theorem last_winners_suffix_witness:
  "(0::int) < 3 \<and>
   last_winners 3 (empty_store\<lparr>history := [HistEntry ''1'' ''10'', HistEntry ''2'' ''20'',
      HistEntry ''3'' ''30'', HistEntry ''4'' ''40'', HistEntry ''5'' ''50'']\<rparr>)
   = Inr (empty_store\<lparr>history := [HistEntry ''1'' ''10'', HistEntry ''2'' ''20'',
      HistEntry ''3'' ''30'', HistEntry ''4'' ''40'', HistEntry ''5'' ''50'']\<rparr>,
      WinnersList [HistEntry ''3'' ''30'', HistEntry ''4'' ''40'', HistEntry ''5'' ''50''])"
  using last_winners_suffix [of 3 "empty_store\<lparr>history := [HistEntry ''1'' ''10'',
      HistEntry ''2'' ''20'', HistEntry ''3'' ''30'', HistEntry ''4'' ''40'',
      HistEntry ''5'' ''50'']\<rparr>"]
  by simp

text \<open>C32: \<open>last_winners 0\<close> shows the whole history, since \<open>-0\<close> is the start index 0; a
  negative count shows all but the oldest \<open>|count|\<close> entries.\<close>

theorem last_winners_nonpositive:
  "last_winners 0 s = (if history s = [] then Inr (s, NoWinners) else Inr (s, WinnersList (history s)))
   \<and> (c < 0 \<longrightarrow>
       last_winners c s =
         (let h = drop (nat (- c)) (history s)
          in if h = [] then Inr (s, NoWinners) else Inr (s, WinnersList h)))"
  by (simp add: last_winners_eq)

theorem last_winners_nonpositive_witness:
  "last_winners 0 (empty_store\<lparr>history := [HistEntry ''1'' ''10'', HistEntry ''2'' ''20'']\<rparr>)
     = Inr (empty_store\<lparr>history := [HistEntry ''1'' ''10'', HistEntry ''2'' ''20'']\<rparr>,
            WinnersList [HistEntry ''1'' ''10'', HistEntry ''2'' ''20''])
   \<and> (- 1 :: int) < 0
   \<and> last_winners (- 1)
       (empty_store\<lparr>history := [HistEntry ''1'' ''10'', HistEntry ''2'' ''20'']\<rparr>)
     = Inr (empty_store\<lparr>history := [HistEntry ''1'' ''10'', HistEntry ''2'' ''20'']\<rparr>,
            WinnersList [HistEntry ''2'' ''20''])"
  using last_winners_nonpositive [of
      "empty_store\<lparr>history := [HistEntry ''1'' ''10'', HistEntry ''2'' ''20'']\<rparr>" "- 1"]
  by (simp add: Let_def)

end
