(* ===== verification/Bot.thy ===== *)
theory Bot
  imports Gacha Tickets Pool Shards History
begin

text \<open>
  The command surface of the bot (src/bot.py, lines 31-160): nine slash commands, six of
  them behind \<open>app_commands.checks.has_permissions(administrator=True)\<close>, which raises
  \<open>CheckFailure\<close> before the handler runs. One request is one handler run to completion:
  the handlers issue their Redis commands without an \<open>await\<close> in between, so the
  event loop of one bot process runs them one after the other. A handler that raises
  (a Redis error or \<open>ValueError\<close>) does so before its first write, so its store is
  unchanged. \<open>run\<close> serves a list of requests in order.
\<close>

datatype command =
    CmdGacha nat
  | CmdAddTicket user_id
  | CmdRemaining
  | CmdReset
  | CmdRewards
  | CmdLastWinners int
  | CmdGiveShards user_id int
  | CmdRemoveShards user_id int
  | CmdShards

record request =
  caller :: user_id
  is_admin :: bool
  command :: command

datatype outcome = Replied reply | CheckFailure | Raised error

definition admin_only :: "command \<Rightarrow> bool" where
  "admin_only c =
     (case c of
        CmdAddTicket _ \<Rightarrow> True | CmdRemaining \<Rightarrow> True | CmdReset \<Rightarrow> True
      | CmdLastWinners _ \<Rightarrow> True | CmdGiveShards _ _ \<Rightarrow> True | CmdRemoveShards _ _ \<Rightarrow> True
      | _ \<Rightarrow> False)"

definition run_command :: "user_id \<Rightarrow> command \<Rightarrow> store \<Rightarrow> error + (store \<times> reply)" where
  "run_command uid c s =
     (case c of
        CmdGacha k \<Rightarrow> gacha uid k s
      | CmdAddTicket m \<Rightarrow> add_ticket m s
      | CmdRemaining \<Rightarrow> remaining_rewards s
      | CmdReset \<Rightarrow> reset s
      | CmdRewards \<Rightarrow> rewards_history s
      | CmdLastWinners n \<Rightarrow> last_winners n s
      | CmdGiveShards m a \<Rightarrow> give_shards m a s
      | CmdRemoveShards m a \<Rightarrow> remove_shards m a s
      | CmdShards \<Rightarrow> check_shards uid s)"

definition handle :: "request \<Rightarrow> store \<Rightarrow> store \<times> outcome" where
  "handle rq s =
     (if admin_only (command rq) \<and> \<not> is_admin rq then (s, CheckFailure)
      else case run_command (caller rq) (command rq) s of
             Inl e \<Rightarrow> (s, Raised e)
           | Inr (s', r) \<Rightarrow> (s', Replied r))"

fun run :: "store \<Rightarrow> request list \<Rightarrow> store \<times> outcome list" where
  "run s [] = (s, [])"
| "run s (rq # rqs) =
     (let (s', out) = handle rq s; (s'', outs) = run s' rqs in (s'', out # outs))"

subsection \<open>Well-formed stores\<close>

text \<open>
  Counters are non-negative 64-bit integers, the pool holds distinct identifiers of the
  reset list, and every awarded reward is one of them.
\<close>

definition store_ok :: "store \<Rightarrow> bool" where
  "store_ok s \<longleftrightarrow>
     counters_ok (tickets s) \<and> counters_ok (shards s)
     \<and> set (remaining s) \<subseteq> set initial_rewards \<and> distinct (remaining s)
     \<and> set (map entry_reward (history s)) \<subseteq> set initial_rewards"

lemma store_ok_empty: "store_ok empty_store"
  by (simp add: store_ok_def empty_store_def)

lemma gacha_store_ok:
  assumes "store_ok s" and "gacha u k s = Inr (s', rep)"
  shows "store_ok s'"
  using assms(2)
proof (cases rule: gacha_Inr_cases)
  case no_ticket
  with assms(1) show ?thesis by simp
next
  case empty
  with assms(1) show ?thesis
    by (simp add: store_ok_def)
next
  case won
  let ?r = "py_choice (remaining s) k"
  from won have "?r \<in> set (remaining s)" by simp
  with assms(1) won show ?thesis
    by (auto simp: store_ok_def gacha_won_store_def dest: in_set_remove1 [THEN iffD1] subsetD)
qed

lemma remaining_rewards_read_only: "remaining_rewards s = Inr (s', r) \<Longrightarrow> s' = s"
  by (auto simp: remaining_rewards_def Let_def split: if_splits option.splits)

lemma run_command_store_ok:
  assumes ok: "store_ok s" and run: "run_command u c s = Inr (s', rep)"
  shows "store_ok s'"
proof (cases c)
  case (CmdGacha k)
  with assms show ?thesis by (simp add: run_command_def gacha_store_ok)
next
  case (CmdAddTicket m)
  with assms show ?thesis
    by (auto simp: run_command_def store_ok_def add_ticket_eq split: if_splits)
next
  case CmdRemaining
  with assms show ?thesis by (auto simp: run_command_def dest: remaining_rewards_read_only)
next
  case CmdReset
  with assms show ?thesis
    using distinct_initial_rewards
    by (auto simp: run_command_def store_ok_def reset_eq initial_rewards_eq)
next
  case CmdRewards
  with assms show ?thesis by (auto simp: run_command_def rewards_history_def Let_def split: if_splits)
next
  case (CmdLastWinners n)
  with assms show ?thesis by (auto simp: run_command_def last_winners_def Let_def split: if_splits)
next
  case (CmdGiveShards m a)
  with assms show ?thesis
    by (auto simp: run_command_def store_ok_def give_shards_eq in_int64_def split: if_splits)
next
  case (CmdRemoveShards m a)
  with assms show ?thesis
    by (auto simp: run_command_def store_ok_def remove_shards_eq split: if_splits)
next
  case CmdShards
  with assms show ?thesis by (simp add: run_command_def check_shards_def)
qed

lemma handle_store_ok: "store_ok s \<Longrightarrow> store_ok (fst (handle rq s))"
  by (auto simp: handle_def split: sum.splits intro: run_command_store_ok)

lemma run_Cons_fst: "fst (run s (rq # rqs)) = fst (run (fst (handle rq s)) rqs)"
  by (simp add: split_def Let_def)

lemma run_store_ok: "store_ok s \<Longrightarrow> store_ok (fst (run s rqs))"
  by (induction rqs arbitrary: s) (simp_all add: run_Cons_fst handle_store_ok del: run.simps(2))

subsection \<open>Rewards are conserved between resets\<close>

lemma run_command_frame:
  assumes "run_command u c s = Inr (s', rep)" and "c \<noteq> CmdReset" and "\<forall>k. c \<noteq> CmdGacha k"
  shows "remaining s' = remaining s \<and> history s' = history s"
  using assms
  by (cases c) (auto simp: run_command_def add_ticket_def incr_tickets_def give_shards_def
      incrby_shards_def remove_shards_def decrby_shards_def check_shards_def Let_def
      rewards_history_def last_winners_def dest: remaining_rewards_read_only
      split: if_splits sum.splits)

text \<open>The multiset of rewards in the pool and in the history entries appended since is
  unchanged by a request that is not a reset.\<close>

definition conserves :: "store \<Rightarrow> store \<Rightarrow> bool" where
  "conserves s s' \<longleftrightarrow>
     mset (remaining s) =
       mset (remaining s') + mset (map entry_reward (drop (length (history s)) (history s')))
     \<and> prefix (history s) (history s')"

lemma conserves_refl [simp]: "conserves s s"
  by (simp add: conserves_def)

lemma conserves_trans: "conserves s1 s2 \<Longrightarrow> conserves s2 s3 \<Longrightarrow> conserves s1 s3"
  unfolding conserves_def
  by (auto simp: prefix_drop_append [of "history s1" "history s2" "history s3"] add.assoc
      intro: prefix_order.trans)

lemma handle_conserves:
  assumes "command rq \<noteq> CmdReset"
  shows "conserves s (fst (handle rq s))"
proof (cases "run_command (caller rq) (command rq) s")
  case (Inl e)
  then show ?thesis by (simp add: handle_def)
next
  case (Inr p)
  obtain s' rep where p: "p = (s', rep)" by fastforce
  have "conserves s s'"
  proof (cases "\<exists>k. command rq = CmdGacha k")
    case True
    then obtain k where "command rq = CmdGacha k" by blast
    with Inr p have "gacha (caller rq) k s = Inr (s', rep)" by (simp add: run_command_def)
    then show ?thesis by (simp add: conserves_def gacha_conserves)
  next
    case False
    with Inr p assms show ?thesis
      by (auto simp: conserves_def dest: run_command_frame)
  qed
  with Inr p show ?thesis by (simp add: handle_def)
qed

lemma run_conserves:
  "\<forall>rq \<in> set rqs. command rq \<noteq> CmdReset \<Longrightarrow> conserves s (fst (run s rqs))"
proof (induction rqs arbitrary: s)
  case Nil
  then show ?case by simp
next
  case (Cons rq rqs)
  then have "conserves s (fst (handle rq s))"
    and "conserves (fst (handle rq s)) (fst (run (fst (handle rq s)) rqs))"
    by (simp_all add: handle_conserves)
  then show ?case
    by (simp add: run_Cons_fst conserves_trans del: run.simps(2))
qed

lemma handle_reset:
  "is_admin rq \<Longrightarrow> command rq = CmdReset \<Longrightarrow>
   handle rq s = (s\<lparr>remaining := initial_rewards\<rparr>, Replied ResetDone)"
  by (simp add: handle_def admin_only_def run_command_def reset_eq initial_rewards_eq)

subsection \<open>Properties\<close>

text \<open>C33: the permission check rejects exactly the administrative operations of the spec
  (section 6: add-ticket, remaining-rewards, reset, last-winners, give-shards,
  remove-shards) when the caller is not an administrator, and then changes nothing; no other
  request ever fails the check.\<close>

theorem admin_gate:
  "(snd (handle rq s) = CheckFailure \<longleftrightarrow>
      \<not> is_admin rq \<and>
      (case command rq of
         CmdAddTicket _ \<Rightarrow> True | CmdRemaining \<Rightarrow> True | CmdReset \<Rightarrow> True
       | CmdLastWinners _ \<Rightarrow> True | CmdGiveShards _ _ \<Rightarrow> True | CmdRemoveShards _ _ \<Rightarrow> True
       | CmdGacha _ \<Rightarrow> False | CmdRewards \<Rightarrow> False | CmdShards \<Rightarrow> False))
   \<and> (snd (handle rq s) = CheckFailure \<longrightarrow> fst (handle rq s) = s)"
  by (cases "command rq")
    (auto simp: handle_def admin_only_def split: sum.splits prod.splits)

theorem admin_gate_witness:
  "snd (handle \<lparr>caller = 3, is_admin = False, command = CmdReset\<rparr> empty_store) = CheckFailure
   \<and> fst (handle \<lparr>caller = 3, is_admin = False, command = CmdReset\<rparr> empty_store) = empty_store
   \<and> snd (handle \<lparr>caller = 3, is_admin = False, command = CmdShards\<rparr> empty_store) \<noteq> CheckFailure"
proof -
  have r: "snd (handle \<lparr>caller = 3, is_admin = False, command = CmdReset\<rparr> empty_store) = CheckFailure"
    and g: "snd (handle \<lparr>caller = 3, is_admin = False, command = CmdShards\<rparr> empty_store) \<noteq> CheckFailure"
    using admin_gate [of "\<lparr>caller = 3, is_admin = False, command = CmdReset\<rparr>" empty_store]
      admin_gate [of "\<lparr>caller = 3, is_admin = False, command = CmdShards\<rparr>" empty_store]
    by simp_all
  moreover have "fst (handle \<lparr>caller = 3, is_admin = False, command = CmdReset\<rparr> empty_store) = empty_store"
    using admin_gate [of "\<lparr>caller = 3, is_admin = False, command = CmdReset\<rparr>" empty_store] r by blast
  ultimately show ?thesis by blast
qed

end
