(* ===== verification/Interleave.thy ===== *)
theory Interleave
  imports Bot
begin

text \<open>
  Several bot processes (or any other Redis clients) sharing one Redis. Within a process
  a handler is atomic (no \<open>await\<close> between its Redis calls), but Redis serves the
  commands of different clients in any interleaving. Here \<open>gacha\<close> (src/bot.py, lines
  31-55), \<open>reset\<close> (lines 91-101), \<open>give_shards\<close> (127-135) and \<open>remove_shards\<close>
  (138-153) are split into their single Redis commands: a process is at one program point
  (\<open>gpc\<close>, \<open>rpc\<close>, \<open>spc\<close>), \<open>proc_step\<close> executes its next
  command atomically on the store, and \<open>cstep\<close> lets any process take its next step.
  \<open>run_sched\<close> runs an explicit schedule (a list of process indices).
\<close>

text \<open>Program points of \<open>gacha\<close>: before \<open>GET\<close>, after it (the value read), after
  \<open>DECR\<close>, after \<open>LRANGE\<close> and \<open>random.choice\<close> (the reward), after \<open>LREM\<close>,
  and finished.\<close>

datatype gpc =
    GStart nat
  | GRead nat int
  | GDecred nat
  | GPicked string
  | GRemoved string
  | GDone reply
  | GFailed error

text \<open>Program points of \<open>reset\<close>: before \<open>DEL\<close>, between \<open>DEL\<close> and \<open>RPUSH\<close>, finished.\<close>

datatype rpc = RStart | RDeleted | RDone

text \<open>Program points of the shard handlers, for the member they act on: \<open>give_shards\<close>
  before \<open>INCRBY\<close> and before the \<open>GET\<close> of the total; \<open>remove_shards\<close> before the
  \<open>GET\<close> of the balance, after it (amount and balance read), after \<open>DECRBY\<close>; finished.
  The amount check of either handler reads nothing and is part of its first step.\<close>

datatype spc =
    SGive int
  | SGiven int
  | SRemove int
  | SRead int int
  | SDecred int
  | SDone reply
  | SFailed error

datatype proc = GachaProc user_id gpc | ResetProc rpc | ShardProc user_id spc

fun gacha_step :: "user_id \<Rightarrow> gpc \<Rightarrow> store \<Rightarrow> (gpc \<times> store) option" where
  "gacha_step u (GStart k) s = Some (GRead k (get_or0 (tickets s u)), s)"
| "gacha_step u (GRead k n) s =
     (if n \<le> 0 then Some (GDone NoTicket, s)
      else case decr_tickets u s of
             Inl e \<Rightarrow> Some (GFailed (RedisError e), s)
           | Inr s' \<Rightarrow> Some (GDecred k, s'))"
| "gacha_step u (GDecred k) s =
     (let rewards = redis_lrange (remaining s) 0 (- 1) in
      if rewards = [] then Some (GDone NoRewardsLeft, s)
      else Some (GPicked (py_choice rewards k), s))"
| "gacha_step u (GPicked r) s = Some (GRemoved r, lrem_remaining r s)"
| "gacha_step u (GRemoved r) s = Some (GDone (Won r), rpush_history (HistEntry (nat_str u) r) s)"
| "gacha_step u (GDone rep) s = None"
| "gacha_step u (GFailed e) s = None"

fun reset_step :: "rpc \<Rightarrow> store \<Rightarrow> (rpc \<times> store) option" where
  "reset_step RStart s = Some (RDeleted, del_remaining s)"
| "reset_step RDeleted s = Some (RDone, rpush_remaining initial_rewards s)"
| "reset_step RDone s = None"

fun shard_step :: "user_id \<Rightarrow> spc \<Rightarrow> store \<Rightarrow> (spc \<times> store) option" where
  "shard_step m (SGive a) s =
     (if a \<le> 0 then Some (SDone AmountNotPositive, s)
      else case incrby_shards m a s of
             Inl e \<Rightarrow> Some (SFailed (RedisError e), s)
           | Inr s' \<Rightarrow> Some (SGiven a, s'))"
| "shard_step m (SGiven a) s = Some (SDone (ShardsGiven a m (get_or0 (shards s m))), s)"
| "shard_step m (SRemove a) s =
     (if a \<le> 0 then Some (SDone AmountNotPositive, s)
      else Some (SRead a (get_or0 (shards s m)), s))"
| "shard_step m (SRead a cur) s =
     (if cur < a then Some (SDone (ShardsTooFew m cur a), s)
      else case decrby_shards m a s of
             Inl e \<Rightarrow> Some (SFailed (RedisError e), s)
           | Inr s' \<Rightarrow> Some (SDecred a, s'))"
| "shard_step m (SDecred a) s = Some (SDone (ShardsRemoved a m (get_or0 (shards s m))), s)"
| "shard_step m (SDone rep) s = None"
| "shard_step m (SFailed e) s = None"

fun proc_step :: "proc \<Rightarrow> store \<Rightarrow> (proc \<times> store) option" where
  "proc_step (GachaProc u g) s = map_option (\<lambda>(g', s'). (GachaProc u g', s')) (gacha_step u g s)"
| "proc_step (ResetProc r) s = map_option (\<lambda>(r', s'). (ResetProc r', s')) (reset_step r s)"
| "proc_step (ShardProc m g) s = map_option (\<lambda>(g', s'). (ShardProc m g', s')) (shard_step m g s)"

inductive cstep :: "store \<times> proc list \<Rightarrow> store \<times> proc list \<Rightarrow> bool" where
  step: "i < length ps \<Longrightarrow> proc_step (ps ! i) s = Some (p', s') \<Longrightarrow>
         cstep (s, ps) (s', ps[i := p'])"

inductive_cases cstepE: "cstep (s, ps) (s', ps')"

fun run_sched :: "nat list \<Rightarrow> store \<Rightarrow> proc list \<Rightarrow> store \<times> proc list" where
  "run_sched [] s ps = (s, ps)"
| "run_sched (i # is) s ps =
     (if i < length ps
      then case proc_step (ps ! i) s of
             None \<Rightarrow> run_sched is s ps
           | Some (p', s') \<Rightarrow> run_sched is s' (ps[i := p'])
      else run_sched is s ps)"

text \<open>A process run on its own, with fuel: each unit runs one Redis command.\<close>

fun gacha_run :: "nat \<Rightarrow> user_id \<Rightarrow> gpc \<Rightarrow> store \<Rightarrow> gpc \<times> store" where
  "gacha_run 0 u g s = (g, s)"
| "gacha_run (Suc n) u g s =
     (case gacha_step u g s of None \<Rightarrow> (g, s) | Some (g', s') \<Rightarrow> gacha_run n u g' s')"

text \<open>One redemption in flight per user: the gacha processes belong to distinct users, and a
  process that has read its counter and will decrement it read the current value.\<close>

fun gacha_user :: "proc \<Rightarrow> user_id option" where
  "gacha_user (GachaProc u g) = Some u"
| "gacha_user (ResetProc r) = None"
| "gacha_user (ShardProc m g) = None"

fun read_ok :: "store \<Rightarrow> proc \<Rightarrow> bool" where
  "read_ok s (GachaProc u (GRead k n)) = (n \<le> 0 \<or> n = get_or0 (tickets s u))"
| "read_ok s p = True"

definition users_distinct :: "proc list \<Rightarrow> bool" where
  "users_distinct ps \<longleftrightarrow>
     (\<forall>i < length ps. \<forall>j < length ps. i \<noteq> j \<longrightarrow>
        gacha_user (ps ! i) = None \<or> gacha_user (ps ! i) \<noteq> gacha_user (ps ! j))"

definition single_flight :: "store \<Rightarrow> proc list \<Rightarrow> bool" where
  "single_flight s ps \<longleftrightarrow>
     counters_ok (tickets s) \<and> users_distinct ps \<and> (\<forall>p \<in> set ps. read_ok s p)"

text \<open>Provenance of rewards: the pool, the history and the reward a process holds between
  \<open>LRANGE\<close> and \<open>RPUSH\<close> are identifiers of the reset list.\<close>

fun picked :: "proc \<Rightarrow> string option" where
  "picked (GachaProc u (GPicked r)) = Some r"
| "picked (GachaProc u (GRemoved r)) = Some r"
| "picked p = None"

definition awards_ok :: "store \<Rightarrow> proc list \<Rightarrow> bool" where
  "awards_ok s ps \<longleftrightarrow>
     set (remaining s) \<subseteq> set initial_rewards
     \<and> set (map entry_reward (history s)) \<subseteq> set initial_rewards
     \<and> (\<forall>p \<in> set ps. set_option (picked p) \<subseteq> set initial_rewards)"

subsection \<open>Schedules are runs of the step relation\<close>

lemma run_sched_cstep: "run_sched is s ps = (s', ps') \<Longrightarrow> cstep\<^sup>*\<^sup>* (s, ps) (s', ps')"
proof (induction "is" s ps rule: run_sched.induct)
  case (1 s ps)
  then show ?case by simp
next
  case (2 i "is" s ps)
  show ?case
  proof (cases "i < length ps")
    case True
    show ?thesis
    proof (cases "proc_step (ps ! i) s")
      case None
      with True "2.prems" "2.IH"(1) show ?thesis by simp
    next
      case (Some q)
      obtain p' s1 where q: "q = (p', s1)" by fastforce
      with True Some "2.prems" have "run_sched is s1 (ps[i := p']) = (s', ps')" by simp
      with True Some q "2.IH"(2) have "cstep\<^sup>*\<^sup>* (s1, ps[i := p']) (s', ps')" by simp
      moreover from True Some q have "cstep (s, ps) (s1, ps[i := p'])"
        by (auto intro: cstep.step)
      ultimately show ?thesis by (rule converse_rtranclp_into_rtranclp [rotated])
    qed
  next
    case False
    with "2.prems" "2.IH"(3) show ?thesis by simp
  qed
qed

subsection \<open>A process alone is the atomic handler\<close>

lemma gacha_run_final [simp]:
  "gacha_run n u (GDone r) s = (GDone r, s)"
  "gacha_run n u (GFailed e) s = (GFailed e, s)"
  by (cases n; simp)+

lemma gacha_run_Suc_Some:
  "gacha_step u g s = Some (g', s') \<Longrightarrow> gacha_run (Suc n) u g s = gacha_run n u g' s'"
  by simp


subsection \<open>Invariants under any interleaving\<close>

lemma proc_step_user: "proc_step p s = Some (p', s') \<Longrightarrow> gacha_user p' = gacha_user p"
  by (cases p) auto

lemma shard_step_frame:
  "shard_step m g s = Some (g', s') \<Longrightarrow>
   tickets s' = tickets s \<and> remaining s' = remaining s \<and> history s' = history s"
  by (cases g) (auto simp: incrby_shards_def decrby_shards_def split: if_splits sum.splits)

lemma read_ok_tickets: "tickets s' = tickets s \<Longrightarrow> read_ok s' p = read_ok s p"
  by (cases "(s, p)" rule: read_ok.cases) simp_all

lemma proc_step_read_ok: "proc_step p s = Some (p', s') \<Longrightarrow> read_ok s' p'"
proof (cases p)
  case (GachaProc u g)
  assume st: "proc_step p s = Some (p', s')"
  with GachaProc show ?thesis
    by (cases g) (auto simp: Let_def split: if_splits sum.splits)
next
  case (ResetProc r)
  assume "proc_step p s = Some (p', s')"
  with ResetProc show ?thesis by auto
next
  case (ShardProc m g)
  assume "proc_step p s = Some (p', s')"
  with ShardProc show ?thesis by auto
qed

lemma proc_step_tickets:
  assumes "proc_step p s = Some (p', s')"
  shows "tickets s' = tickets s \<or>
         (\<exists>u k n. p = GachaProc u (GRead k n) \<and> 0 < n \<and> decr_tickets u s = Inr s')"
proof (cases p)
  case (GachaProc u g)
  with assms show ?thesis
    by (cases g) (auto simp: Let_def store_simps split: if_splits sum.splits)
next
  case (ResetProc r)
  with assms show ?thesis by (cases r) (auto simp: store_simps)
next
  case (ShardProc m g)
  with assms show ?thesis by (auto dest: shard_step_frame)
qed

lemma read_ok_other:
  "tickets s' = (tickets s)(u \<mapsto> v) \<Longrightarrow> gacha_user q \<noteq> Some u \<Longrightarrow> read_ok s q \<Longrightarrow>
   read_ok s' q"
  by (cases "(s, q)" rule: read_ok.cases) auto

lemma users_distinct_nth:
  "users_distinct ps \<Longrightarrow> i < length ps \<Longrightarrow> j < length ps \<Longrightarrow> i \<noteq> j \<Longrightarrow>
   gacha_user (ps ! i) = Some u \<Longrightarrow> gacha_user (ps ! j) \<noteq> Some u"
  unfolding users_distinct_def by force

lemma users_distinct_update:
  "users_distinct ps \<Longrightarrow> i < length ps \<Longrightarrow> gacha_user p' = gacha_user (ps ! i) \<Longrightarrow>
   users_distinct (ps[i := p'])"
  unfolding users_distinct_def by (simp add: nth_list_update)

lemma cstep_single_flight:
  assumes "cstep (s, ps) (s', ps')" and inv: "single_flight s ps"
  shows "single_flight s' ps'"
proof -
  from assms(1) obtain i p' where i: "i < length ps" and st: "proc_step (ps ! i) s = Some (p', s')"
    and step: "ps' = ps[i := p']"
    by (blast elim: cstepE)
  from inv have ok: "counters_ok (tickets s)" and ud: "users_distinct ps"
    and rd: "\<forall>p \<in> set ps. read_ok s p" by (simp_all add: single_flight_def)
  have ud': "users_distinct ps'"
    using ud i proc_step_user [OF st] by (simp add: step users_distinct_update)
  have new: "read_ok s' p'" by (rule proc_step_read_ok [OF st])
  from proc_step_tickets [OF st] show ?thesis
  proof
    assume same: "tickets s' = tickets s"
    have "\<forall>q \<in> set ps'. read_ok s' q"
    proof
      fix q assume "q \<in> set ps'"
      then have "q = p' \<or> q \<in> set ps"
        using set_update_subset_insert [of ps i p'] \<open>q \<in> set ps'\<close> step by blast
      with new rd show "read_ok s' q" by (auto simp: read_ok_tickets [OF same])
    qed
    with ok ud' same show ?thesis by (simp add: single_flight_def)
  next
    assume "\<exists>u k n. ps ! i = GachaProc u (GRead k n) \<and> 0 < n \<and> decr_tickets u s = Inr s'"
    then obtain u k n where pi: "ps ! i = GachaProc u (GRead k n)" and n: "0 < n"
      and dec: "decr_tickets u s = Inr s'" by blast
    from nth_mem [OF i] rd have "read_ok s (ps ! i)" by blast
    with pi n have cur: "get_or0 (tickets s u) = n" by simp
    with ok n dec have t': "tickets s' = (tickets s)(u \<mapsto> n - 1)"
      by (auto simp: decr_tickets_pos)
    from ok n cur have ok': "counters_ok (tickets s')"
      using counters_ok_sub [of "tickets s" 1 u] by (simp add: t')
    have "\<forall>q \<in> set ps'. read_ok s' q"
    proof
      fix q assume "q \<in> set ps'"
      then obtain j where j: "j < length ps" and q: "q = ps' ! j"
        using \<open>q \<in> set ps'\<close> by (metis in_set_conv_nth length_list_update step)
      show "read_ok s' q"
      proof (cases "j = i")
        case True
        with new q i show ?thesis by (simp add: step)
      next
        case False
        with q have qj: "q = ps ! j" by (simp add: step)
        from nth_mem [OF j] rd qj have rq: "read_ok s q" by blast
        have "gacha_user (ps ! i) = Some u" using pi by simp
        with ud i j False have nu: "gacha_user q \<noteq> Some u"
          using users_distinct_nth [of ps i j u] qj by simp
        from t' nu rq show ?thesis by (rule read_ok_other)
      qed
    qed
    with ok' ud' show ?thesis by (simp add: single_flight_def)
  qed
qed

lemma proc_step_awards:
  assumes "proc_step p s = Some (p', s')"
    and "set (remaining s) \<subseteq> set initial_rewards"
    and "set (map entry_reward (history s)) \<subseteq> set initial_rewards"
    and "set_option (picked p) \<subseteq> set initial_rewards"
  shows "set (remaining s') \<subseteq> set initial_rewards
         \<and> set (map entry_reward (history s')) \<subseteq> set initial_rewards
         \<and> set_option (picked p') \<subseteq> set initial_rewards"
proof (cases p)
  case (GachaProc u g)
  show ?thesis
  proof (cases g)
    case (GDecred k)
    show ?thesis
    proof (cases "remaining s = []")
      case True
      with assms GachaProc GDecred show ?thesis by auto
    next
      case False
      then have "py_choice (remaining s) k \<in> set initial_rewards"
        using assms(2) py_choice_in [of "remaining s" k] by blast
      with assms GachaProc GDecred False show ?thesis by auto
    qed
  qed (insert assms GachaProc, auto simp: Let_def store_simps decr_tickets_def image_subset_iff
        dest!: in_set_remove1D split: if_splits sum.splits)
next
  case (ResetProc r)
  with assms show ?thesis by (cases r) (auto simp: store_simps)
next
  case (ShardProc m g)
  with assms(1) obtain g' where "shard_step m g s = Some (g', s')" and "p' = ShardProc m g'"
    by auto
  with assms(2,3) show ?thesis by (auto dest!: shard_step_frame)
qed

lemma cstep_awards: "cstep (s, ps) (s', ps') \<Longrightarrow> awards_ok s ps \<Longrightarrow> awards_ok s' ps'"
proof -
  assume c: "cstep (s, ps) (s', ps')" and inv: "awards_ok s ps"
  from c obtain i p' where i: "i < length ps" and st: "proc_step (ps ! i) s = Some (p', s')"
    and ps': "ps' = ps[i := p']"
    by (blast elim: cstepE)
  from inv nth_mem [OF i] have "set_option (picked (ps ! i)) \<subseteq> set initial_rewards"
    by (simp add: awards_ok_def)
  moreover from inv have "set (remaining s) \<subseteq> set initial_rewards"
    and "set (map entry_reward (history s)) \<subseteq> set initial_rewards"
    by (simp_all add: awards_ok_def)
  ultimately have new: "set (remaining s') \<subseteq> set initial_rewards
         \<and> set (map entry_reward (history s')) \<subseteq> set initial_rewards
         \<and> set_option (picked p') \<subseteq> set initial_rewards"
    using proc_step_awards [OF st] by blast
  have "\<forall>q \<in> set ps'. set_option (picked q) \<subseteq> set initial_rewards"
  proof
    fix q assume "q \<in> set ps'"
    then have "q = p' \<or> q \<in> set ps"
      using set_update_subset_insert [of ps i p'] ps' by blast
    with new inv show "set_option (picked q) \<subseteq> set initial_rewards"
      by (auto simp: awards_ok_def)
  qed
  with new show ?thesis by (simp add: awards_ok_def)
qed

subsection \<open>Properties\<close>



text \<open>C9: two processes redeeming for the same member, who holds one ticket, can both read
  the counter as 1 before either decrements it: both win, the counter ends at -1. Served
  one after the other, the second gets "no ticket". The spec (section 4.1) requires
  exactly one success.\<close>

theorem race_double_spend:
  "\<exists>s'. cstep\<^sup>*\<^sup>* (\<lparr>tickets = [1 \<mapsto> 1], shards = Map.empty, remaining = [''1'', ''2''],
                     history = []\<rparr>,
                   [GachaProc 1 (GStart 0), GachaProc 1 (GStart 1)])
                  (s', [GachaProc 1 (GDone (Won ''1'')), GachaProc 1 (GDone (Won ''2''))])
        \<and> tickets s' 1 = Some (- 1)
   \<and> snd (run \<lparr>tickets = [1 \<mapsto> 1], shards = Map.empty, remaining = [''1'', ''2''], history = []\<rparr>
            [\<lparr>caller = 1, is_admin = False, command = CmdGacha 0\<rparr>,
             \<lparr>caller = 1, is_admin = False, command = CmdGacha 1\<rparr>])
       = [Replied (Won ''1''), Replied NoTicket]"
proof -
  let ?s0 = "\<lparr>tickets = [1 \<mapsto> 1], shards = Map.empty, remaining = [''1'', ''2''], history = []\<rparr>"
  have n1: "nat_str (Suc 0) = ''1''" by code_simp
  have "run_sched [0, 1, 0, 1, 0, 1, 0, 1, 0, 1] ?s0 [GachaProc 1 (GStart 0), GachaProc 1 (GStart 1)]
        = (\<lparr>tickets = [1 \<mapsto> - 1], shards = Map.empty, remaining = [],
            history = [HistEntry ''1'' ''1'', HistEntry ''1'' ''2'']\<rparr>,
           [GachaProc 1 (GDone (Won ''1'')), GachaProc 1 (GDone (Won ''2''))])"
    by (simp add: n1 decr_tickets_def redis_incrby_def in_int64_def int64_min_def int64_max_def
        store_simps py_choice_def)
  then have reach: "\<exists>s'. cstep\<^sup>*\<^sup>* (?s0, [GachaProc 1 (GStart 0), GachaProc 1 (GStart 1)])
                  (s', [GachaProc 1 (GDone (Won ''1'')), GachaProc 1 (GDone (Won ''2''))])
        \<and> tickets s' 1 = Some (- 1)"
    by (fastforce dest: run_sched_cstep)
  have "snd (run ?s0 [\<lparr>caller = 1, is_admin = False, command = CmdGacha 0\<rparr>,
                      \<lparr>caller = 1, is_admin = False, command = CmdGacha 1\<rparr>])
        = [Replied (Won ''1''), Replied NoTicket]"
    by (simp add: n1 handle_def admin_only_def run_command_def gacha_def Let_def decr_tickets_def
        redis_incrby_def in_int64_def int64_min_def int64_max_def store_simps py_choice_def)
  with reach show ?thesis by blast
qed

text \<open>C10: two members with a ticket each, redeeming at the same time, can read the same
  pool and draw the same reward: both are told they won it, the history records it twice,
  and the second \<open>LREM\<close> removes nothing. Served one after the other they win different
  rewards. The spec (section 4.4) forbids awarding a reward twice.\<close>

theorem race_same_reward:
  "\<exists>s'. cstep\<^sup>*\<^sup>* (\<lparr>tickets = [1 \<mapsto> 1, 2 \<mapsto> 1], shards = Map.empty, remaining = [''1'', ''2''],
                     history = []\<rparr>,
                   [GachaProc 1 (GStart 0), GachaProc 2 (GStart 0)])
                  (s', [GachaProc 1 (GDone (Won ''1'')), GachaProc 2 (GDone (Won ''1''))])
        \<and> history s' = [HistEntry ''1'' ''1'', HistEntry ''2'' ''1''] \<and> remaining s' = [''2'']
   \<and> snd (run \<lparr>tickets = [1 \<mapsto> 1, 2 \<mapsto> 1], shards = Map.empty, remaining = [''1'', ''2''],
               history = []\<rparr>
            [\<lparr>caller = 1, is_admin = False, command = CmdGacha 0\<rparr>,
             \<lparr>caller = 2, is_admin = False, command = CmdGacha 0\<rparr>])
       = [Replied (Won ''1''), Replied (Won ''2'')]"
proof -
  let ?s0 = "\<lparr>tickets = [1 \<mapsto> 1, 2 \<mapsto> 1], shards = Map.empty, remaining = [''1'', ''2''],
              history = []\<rparr>"
  have n1: "nat_str (Suc 0) = ''1''" and n2: "nat_str 2 = ''2''" by code_simp+
  have "run_sched [0, 1, 0, 1, 0, 1, 0, 1, 0, 1] ?s0 [GachaProc 1 (GStart 0), GachaProc 2 (GStart 0)]
        = (\<lparr>tickets = [1 \<mapsto> 0, 2 \<mapsto> 0], shards = Map.empty, remaining = [''2''],
            history = [HistEntry ''1'' ''1'', HistEntry ''2'' ''1'']\<rparr>,
           [GachaProc 1 (GDone (Won ''1'')), GachaProc 2 (GDone (Won ''1''))])"
    by (simp add: n1 n2 decr_tickets_def redis_incrby_def in_int64_def int64_min_def
        int64_max_def store_simps py_choice_def fun_upd_twist)
  then have reach: "\<exists>s'. cstep\<^sup>*\<^sup>* (?s0, [GachaProc 1 (GStart 0), GachaProc 2 (GStart 0)])
                  (s', [GachaProc 1 (GDone (Won ''1'')), GachaProc 2 (GDone (Won ''1''))])
        \<and> history s' = [HistEntry ''1'' ''1'', HistEntry ''2'' ''1''] \<and> remaining s' = [''2'']"
    by (fastforce dest: run_sched_cstep)
  have "snd (run ?s0 [\<lparr>caller = 1, is_admin = False, command = CmdGacha 0\<rparr>,
                      \<lparr>caller = 2, is_admin = False, command = CmdGacha 0\<rparr>])
        = [Replied (Won ''1''), Replied (Won ''2'')]"
    by (simp add: n1 n2 decr_tickets_def redis_incrby_def in_int64_def int64_min_def
        int64_max_def store_simps py_choice_def fun_upd_twist handle_def admin_only_def
        run_command_def gacha_def Let_def)
  with reach show ?thesis by blast
qed

text \<open>C12: a redemption that runs between the \<open>DEL\<close> and the \<open>RPUSH\<close> of a reset sees
  neither the old pool nor the new one but an empty pool: it answers "No rewards left" and
  the member's ticket is gone, although the pool held a reward before and 200 after. The
  spec (section 4.2) requires a reseed to be atomic for concurrent redemptions.\<close>

theorem race_reset_window:
  "\<exists>s'. cstep\<^sup>*\<^sup>* (\<lparr>tickets = [1 \<mapsto> 1], shards = Map.empty, remaining = [''7''], history = []\<rparr>,
                   [ResetProc RStart, GachaProc 1 (GStart 0)])
                  (s', [ResetProc RDone, GachaProc 1 (GDone NoRewardsLeft)])
        \<and> tickets s' 1 = Some 0 \<and> remaining s' = initial_rewards"
proof -
  have "run_sched [0, 1, 1, 1, 0]
          \<lparr>tickets = [1 \<mapsto> 1], shards = Map.empty, remaining = [''7''], history = []\<rparr>
          [ResetProc RStart, GachaProc 1 (GStart 0)]
        = (\<lparr>tickets = [1 \<mapsto> 0], shards = Map.empty, remaining = initial_rewards, history = []\<rparr>,
           [ResetProc RDone, GachaProc 1 (GDone NoRewardsLeft)])"
    by (simp add: decr_tickets_def redis_incrby_def in_int64_def int64_min_def
        int64_max_def store_simps)
  then show ?thesis by (fastforce dest: run_sched_cstep)
qed

text \<open>C11: with at most one redemption in flight per member, no interleaving of redemptions
  and resets drives a ticket counter below 0: the invariant \<open>single_flight\<close> holds in every
  reachable state.\<close>

theorem single_flight_tickets_nonneg:
  assumes "cstep\<^sup>*\<^sup>* (s, ps) (s', ps')" and "single_flight s ps"
  shows "single_flight s' ps' \<and> (\<forall>u. 0 \<le> get_or0 (tickets s' u))"
proof -
  have "single_flight s' ps'"
    using assms
  proof (induction rule: rtranclp_induct2)
    case refl
    then show ?case .
  next
    case (step s1 ps1 s2 ps2)
    then show ?case by (blast intro: cstep_single_flight)
  qed
  then show ?thesis by (auto simp: single_flight_def dest: counters_ok_get)
qed

theorem single_flight_tickets_nonneg_witness:
  "single_flight \<lparr>tickets = [1 \<mapsto> 1, 2 \<mapsto> 1], shards = Map.empty, remaining = [''1'', ''2''],
                  history = []\<rparr> [GachaProc 1 (GStart 0), GachaProc 2 (GStart 0)]
   \<and> single_flight \<lparr>tickets = [1 \<mapsto> 0, 2 \<mapsto> 0], shards = Map.empty, remaining = [''2''],
                  history = [HistEntry ''1'' ''1'', HistEntry ''2'' ''1'']\<rparr>
       [GachaProc 1 (GDone (Won ''1'')), GachaProc 2 (GDone (Won ''1''))]"
proof -
  let ?s0 = "\<lparr>tickets = [1 \<mapsto> 1, 2 \<mapsto> 1], shards = Map.empty, remaining = [''1'', ''2''],
              history = []\<rparr>"
  let ?s1 = "\<lparr>tickets = [1 \<mapsto> 0, 2 \<mapsto> 0], shards = Map.empty, remaining = [''2''],
              history = [HistEntry ''1'' ''1'', HistEntry ''2'' ''1'']\<rparr>"
  let ?ps0 = "[GachaProc 1 (GStart 0), GachaProc 2 (GStart 0)]"
  let ?ps1 = "[GachaProc 1 (GDone (Won ''1'')), GachaProc 2 (GDone (Won ''1''))]"
  have n1: "nat_str (Suc 0) = ''1''" and n2: "nat_str 2 = ''2''" by code_simp+
  have "run_sched [0, 1, 0, 1, 0, 1, 0, 1, 0, 1] ?s0 ?ps0 = (?s1, ?ps1)"
    by (simp add: n1 n2 decr_tickets_def redis_incrby_def in_int64_def int64_min_def
        int64_max_def store_simps py_choice_def fun_upd_twist)
  then have reach: "cstep\<^sup>*\<^sup>* (?s0, ?ps0) (?s1, ?ps1)" by (rule run_sched_cstep)
  have sf0: "single_flight ?s0 ?ps0"
    by (simp add: single_flight_def counters_ok_def users_distinct_def int64_max_def
        less_Suc_eq all_conj_distrib)
  from single_flight_tickets_nonneg [OF reach sf0] sf0 show ?thesis by simp
qed

text \<open>C13: under any interleaving of redemptions and resets, the pool, the history and the
  reward a process holds stay within the identifiers of the reset list: races may award a
  reward twice but never invent one.\<close>

theorem concurrent_awards_from_pool:
  assumes "cstep\<^sup>*\<^sup>* (s, ps) (s', ps')" and "awards_ok s ps"
  shows "awards_ok s' ps'"
  using assms
proof (induction rule: rtranclp_induct2)
  case refl
  then show ?case .
next
  case (step s1 ps1 s2 ps2)
  then show ?case by (blast intro: cstep_awards)
qed

theorem concurrent_awards_from_pool_witness:
  "awards_ok \<lparr>tickets = [1 \<mapsto> 1, 2 \<mapsto> 1], shards = Map.empty, remaining = [''1'', ''2''],
              history = []\<rparr> [GachaProc 1 (GStart 0), GachaProc 2 (GStart 0)]
   \<and> awards_ok \<lparr>tickets = [1 \<mapsto> 0, 2 \<mapsto> 0], shards = Map.empty, remaining = [''2''],
                  history = [HistEntry ''1'' ''1'', HistEntry ''2'' ''1'']\<rparr>
       [GachaProc 1 (GDone (Won ''1'')), GachaProc 2 (GDone (Won ''1''))]"
proof -
  let ?s0 = "\<lparr>tickets = [1 \<mapsto> 1, 2 \<mapsto> 1], shards = Map.empty, remaining = [''1'', ''2''],
              history = []\<rparr>"
  let ?s1 = "\<lparr>tickets = [1 \<mapsto> 0, 2 \<mapsto> 0], shards = Map.empty, remaining = [''2''],
              history = [HistEntry ''1'' ''1'', HistEntry ''2'' ''1'']\<rparr>"
  let ?ps0 = "[GachaProc 1 (GStart 0), GachaProc 2 (GStart 0)]"
  let ?ps1 = "[GachaProc 1 (GDone (Won ''1'')), GachaProc 2 (GDone (Won ''1''))]"
  have n1: "nat_str (Suc 0) = ''1''" and n2: "nat_str 2 = ''2''" by code_simp+
  have "run_sched [0, 1, 0, 1, 0, 1, 0, 1, 0, 1] ?s0 ?ps0 = (?s1, ?ps1)"
    by (simp add: n1 n2 decr_tickets_def redis_incrby_def in_int64_def int64_min_def
        int64_max_def store_simps py_choice_def fun_upd_twist)
  then have reach: "cstep\<^sup>*\<^sup>* (?s0, ?ps0) (?s1, ?ps1)" by (rule run_sched_cstep)
  have a0: "awards_ok ?s0 ?ps0"
    by (simp add: awards_ok_def initial_rewards_def)
  from concurrent_awards_from_pool [OF reach a0] a0 show ?thesis by simp
qed

end
