(* ===== verification/Debits.thy ===== *)
theory Debits
  imports Interleave
begin

text \<open>
  The shard handlers under concurrency. \<open>give_shards\<close> (src/bot.py, lines 127-135)
  issues \<open>INCRBY\<close> then \<open>GET\<close>; \<open>remove_shards\<close> (lines 138-153) issues \<open>GET\<close>,
  checks the balance in Python, then \<open>DECRBY\<close> and \<open>GET\<close>. Their steps are
  \<open>shard_step\<close> of Interleave.thy. This theory runs a shard process alone with fuel, shows
  the check-then-act race of \<open>remove_shards\<close>, and proves that one debit in flight per
  member keeps balances non-negative.
\<close>

fun shard_run :: "nat \<Rightarrow> user_id \<Rightarrow> spc \<Rightarrow> store \<Rightarrow> spc \<times> store" where
  "shard_run 0 m g s = (g, s)"
| "shard_run (Suc n) m g s =
     (case shard_step m g s of None \<Rightarrow> (g, s) | Some (g', s') \<Rightarrow> shard_run n m g' s')"

text \<open>One debit in flight per member: the processes that may still decrement a member's
  shards (before or after reading the balance) belong to distinct members, and one that
  has read a balance covering its amount still finds the amount covered.\<close>

fun remover :: "proc \<Rightarrow> user_id option" where
  "remover (ShardProc m (SRemove a)) = Some m"
| "remover (ShardProc m (SRead a cur)) = Some m"
| "remover p = None"

fun debit_ok :: "store \<Rightarrow> proc \<Rightarrow> bool" where
  "debit_ok s (ShardProc m (SRead a cur)) = (cur < a \<or> (0 < a \<and> a \<le> get_or0 (shards s m)))"
| "debit_ok s p = True"

definition removers_distinct :: "proc list \<Rightarrow> bool" where
  "removers_distinct ps \<longleftrightarrow>
     (\<forall>i < length ps. \<forall>j < length ps. i \<noteq> j \<longrightarrow>
        remover (ps ! i) = None \<or> remover (ps ! i) \<noteq> remover (ps ! j))"

definition single_debit :: "store \<Rightarrow> proc list \<Rightarrow> bool" where
  "single_debit s ps \<longleftrightarrow>
     counters_ok (shards s) \<and> removers_distinct ps \<and> (\<forall>p \<in> set ps. debit_ok s p)"

subsection \<open>Lemmas\<close>

lemma shard_run_final [simp]:
  "shard_run n m (SDone r) s = (SDone r, s)"
  "shard_run n m (SFailed e) s = (SFailed e, s)"
  by (cases n; simp)+

lemma proc_step_remover:
  "proc_step p s = Some (p', s') \<Longrightarrow> remover p' = remover p \<or> remover p' = None"
proof (cases p)
  case (ShardProc m g)
  assume "proc_step p s = Some (p', s')"
  with ShardProc show ?thesis by (cases g) (auto split: if_splits sum.splits)
qed auto

lemma proc_step_debit_ok: "proc_step p s = Some (p', s') \<Longrightarrow> debit_ok s' p'"
proof (cases p)
  case (ShardProc m g)
  assume "proc_step p s = Some (p', s')"
  with ShardProc show ?thesis by (cases g) (auto split: if_splits sum.splits)
qed auto

lemma proc_step_shards:
  assumes "proc_step p s = Some (p', s')"
  shows "shards s' = shards s
         \<or> (\<exists>m a. p = ShardProc m (SGive a) \<and> 0 < a \<and> incrby_shards m a s = Inr s')
         \<or> (\<exists>m a cur. p = ShardProc m (SRead a cur) \<and> a \<le> cur \<and> decrby_shards m a s = Inr s')"
proof (cases p)
  case (GachaProc u g)
  with assms show ?thesis
    by (cases g) (auto simp: Let_def decr_tickets_def lrem_remaining_def rpush_history_def
        split: if_splits sum.splits)
next
  case (ResetProc r)
  with assms show ?thesis by (cases r) (auto simp: store_simps)
next
  case (ShardProc m g)
  with assms show ?thesis by (cases g) (auto split: if_splits sum.splits)
qed

lemma debit_ok_upd:
  "shards s' = (shards s)(m \<mapsto> v) \<Longrightarrow> debit_ok s q \<Longrightarrow>
   remover q \<noteq> Some m \<or> get_or0 (shards s m) \<le> v \<Longrightarrow> debit_ok s' q"
  by (cases "(s, q)" rule: debit_ok.cases) auto

lemma debit_ok_same: "shards s' = shards s \<Longrightarrow> debit_ok s' q = debit_ok s q"
  by (cases "(s, q)" rule: debit_ok.cases) simp_all

lemma removers_distinct_nth:
  "removers_distinct ps \<Longrightarrow> i < length ps \<Longrightarrow> j < length ps \<Longrightarrow> i \<noteq> j \<Longrightarrow>
   remover (ps ! i) = Some m \<Longrightarrow> remover (ps ! j) \<noteq> Some m"
  unfolding removers_distinct_def by force

lemma removers_distinct_update:
  assumes rd: "removers_distinct ps" and i: "i < length ps"
    and p': "remover p' = remover (ps ! i) \<or> remover p' = None"
  shows "removers_distinct (ps[i := p'])"
  unfolding removers_distinct_def
proof (intro allI impI)
  fix a b assume a: "a < length (ps[i := p'])" and b: "b < length (ps[i := p'])" and ab: "a \<noteq> b"
  have D: "remover (ps ! x) = None \<or> remover (ps ! x) \<noteq> remover (ps ! y)"
    if "x < length ps" "y < length ps" "x \<noteq> y" for x y
    using rd that unfolding removers_distinct_def by blast
  show "remover (ps[i := p'] ! a) = None \<or> remover (ps[i := p'] ! a) \<noteq> remover (ps[i := p'] ! b)"
  proof (cases "a = i")
    case True
    with a b ab p' D [of i b] show ?thesis by auto
  next
    case ai: False
    show ?thesis
    proof (cases "b = i")
      case True
      with a b ab ai p' D [of a i] show ?thesis by auto
    next
      case False
      with ai a b ab D [of a b] show ?thesis by auto
    qed
  qed
qed

text \<open>After one step, every process other than the one that moved keeps its \<open>debit_ok\<close>
  when the store changed only at member \<open>m\<close>, and at \<open>m\<close> either did not decrease or
  no other process is debiting \<open>m\<close>.\<close>

lemma debit_ok_others:
  assumes ps': "ps' = ps[i := p']" and i: "i < length ps" and new: "debit_ok s' p'"
    and rd: "\<forall>q \<in> set ps. debit_ok s q"
    and other: "\<And>j. j < length ps \<Longrightarrow> j \<noteq> i \<Longrightarrow> debit_ok s (ps ! j) \<Longrightarrow> debit_ok s' (ps ! j)"
  shows "\<forall>q \<in> set ps'. debit_ok s' q"
proof
  fix q assume "q \<in> set ps'"
  then obtain j where j: "j < length ps" and q: "q = ps' ! j"
    by (metis in_set_conv_nth length_list_update ps')
  show "debit_ok s' q"
  proof (cases "j = i")
    case True
    with new q i show ?thesis by (simp add: ps')
  next
    case False
    with q have "q = ps ! j" by (simp add: ps')
    with other [OF j False] nth_mem [OF j] rd show ?thesis by blast
  qed
qed

lemma step_debit_same:
  assumes ps': "ps' = ps[i := p']" and i: "i < length ps" and new: "debit_ok s' p'"
    and inv: "single_debit s ps" and rd': "removers_distinct ps'"
    and same: "shards s' = shards s"
  shows "single_debit s' ps'"
proof -
  from inv have ok: "counters_ok (shards s)" and rd: "\<forall>q \<in> set ps. debit_ok s q"
    by (simp_all add: single_debit_def)
  have "\<forall>q \<in> set ps'. debit_ok s' q"
    using ps' i new rd by (rule debit_ok_others) (simp add: debit_ok_same [OF same])
  with ok rd' same show ?thesis by (simp add: single_debit_def)
qed

lemma step_debit_give:
  assumes ps': "ps' = ps[i := p']" and i: "i < length ps" and new: "debit_ok s' p'"
    and inv: "single_debit s ps" and rd': "removers_distinct ps'"
    and a: "0 < a" and inc: "incrby_shards m a s = Inr s'"
  shows "single_debit s' ps'"
proof -
  from inv have ok: "counters_ok (shards s)" and rd: "\<forall>q \<in> set ps. debit_ok s q"
    by (simp_all add: single_debit_def)
  from incrby_shards_Inr [OF ok inc]
  have sh: "shards s' = (shards s)(m \<mapsto> get_or0 (shards s m) + a)"
    and lim: "get_or0 (shards s m) + a \<le> int64_max" by simp_all
  have ok': "counters_ok (shards s')"
    unfolding sh using counters_ok_add [OF ok _ lim] a by simp
  have "\<forall>q \<in> set ps'. debit_ok s' q"
    using ps' i new rd
  proof (rule debit_ok_others)
    fix j assume d: "debit_ok s (ps ! j)"
    show "debit_ok s' (ps ! j)" using debit_ok_upd [OF sh d] a by simp
  qed
  with ok' rd' show ?thesis by (simp add: single_debit_def)
qed

lemma step_debit_take:
  assumes ps': "ps' = ps[i := p']" and i: "i < length ps" and new: "debit_ok s' p'"
    and inv: "single_debit s ps" and rd': "removers_distinct ps'"
    and pi: "ps ! i = ShardProc m (SRead a cur)" and le: "a \<le> cur"
    and dec: "decrby_shards m a s = Inr s'"
  shows "single_debit s' ps'"
proof -
  from inv have ok: "counters_ok (shards s)" and rdist: "removers_distinct ps"
    and rd: "\<forall>q \<in> set ps. debit_ok s q" by (simp_all add: single_debit_def)
  from nth_mem [OF i] rd have "debit_ok s (ps ! i)" by blast
  with pi le have a: "0 < a" "a \<le> get_or0 (shards s m)" by auto
  from decrby_shards_eq [OF ok a] dec
  have sh: "shards s' = (shards s)(m \<mapsto> get_or0 (shards s m) - a)" by auto
  have ok': "counters_ok (shards s')"
    unfolding sh using counters_ok_sub [OF ok _ a(2)] a(1) by simp
  have rm: "remover (ps ! i) = Some m" using pi by simp
  have "\<forall>q \<in> set ps'. debit_ok s' q"
    using ps' i new rd
  proof (rule debit_ok_others)
    fix j assume j: "j < length ps" "j \<noteq> i" and d: "debit_ok s (ps ! j)"
    have "remover (ps ! j) \<noteq> Some m"
      using removers_distinct_nth [OF rdist i j(1) j(2) [symmetric] rm] .
    then show "debit_ok s' (ps ! j)" using debit_ok_upd [OF sh d] by simp
  qed
  with ok' rd' show ?thesis by (simp add: single_debit_def)
qed

lemma cstep_single_debit:
  assumes "cstep (s, ps) (s', ps')" and inv: "single_debit s ps"
  shows "single_debit s' ps'"
proof -
  from assms(1) obtain i p' where i: "i < length ps" and st: "proc_step (ps ! i) s = Some (p', s')"
    and ps': "ps' = ps[i := p']"
    by (blast elim: cstepE)
  from inv have "removers_distinct ps" by (simp add: single_debit_def)
  then have rd': "removers_distinct ps'"
    using i proc_step_remover [OF st] by (simp add: ps' removers_distinct_update)
  have new: "debit_ok s' p'" by (rule proc_step_debit_ok [OF st])
  from proc_step_shards [OF st] show ?thesis
  proof (elim disjE exE conjE)
    assume "shards s' = shards s"
    with ps' i new inv rd' show ?thesis by (rule step_debit_same)
  next
    fix m a assume "ps ! i = ShardProc m (SGive a)" "0 < a" "incrby_shards m a s = Inr s'"
    with ps' i new inv rd' show ?thesis by (blast intro: step_debit_give)
  next
    fix m a cur
    assume "ps ! i = ShardProc m (SRead a cur)" "a \<le> cur" "decrby_shards m a s = Inr s'"
    with ps' i new inv rd' show ?thesis by (rule step_debit_take)
  qed
qed

subsection \<open>Properties\<close>



text \<open>C14: two administrators removing 10 shards from a member who holds 10 can both read
  the balance 10 before either \<open>DECRBY\<close>: both succeed and the balance ends at -10.
  Served one after the other, the second is refused. The spec (section 4.3) forbids a debit
  that makes a balance negative.\<close>

theorem race_overdraw:
  "\<exists>s'. cstep\<^sup>*\<^sup>* (\<lparr>tickets = Map.empty, shards = [1 \<mapsto> 10], remaining = [], history = []\<rparr>,
                   [ShardProc 1 (SRemove 10), ShardProc 1 (SRemove 10)])
                  (s', [ShardProc 1 (SDone (ShardsRemoved 10 1 (- 10))),
                        ShardProc 1 (SDone (ShardsRemoved 10 1 (- 10)))])
        \<and> shards s' 1 = Some (- 10)
   \<and> snd (run \<lparr>tickets = Map.empty, shards = [1 \<mapsto> 10], remaining = [], history = []\<rparr>
            [\<lparr>caller = 2, is_admin = True, command = CmdRemoveShards 1 10\<rparr>,
             \<lparr>caller = 3, is_admin = True, command = CmdRemoveShards 1 10\<rparr>])
       = [Replied (ShardsRemoved 10 1 0), Replied (ShardsTooFew 1 0 10)]"
proof -
  let ?s0 = "\<lparr>tickets = Map.empty, shards = [1 \<mapsto> 10], remaining = [], history = []\<rparr>"
  have "run_sched [0, 1, 0, 1, 0, 1] ?s0 [ShardProc 1 (SRemove 10), ShardProc 1 (SRemove 10)]
        = (\<lparr>tickets = Map.empty, shards = [1 \<mapsto> - 10], remaining = [], history = []\<rparr>,
           [ShardProc 1 (SDone (ShardsRemoved 10 1 (- 10))),
            ShardProc 1 (SDone (ShardsRemoved 10 1 (- 10)))])"
    by (simp add: decrby_shards_def redis_decrby_def redis_incrby_def in_int64_def int64_min_def
        int64_max_def)
  then have reach: "\<exists>s'. cstep\<^sup>*\<^sup>* (?s0, [ShardProc 1 (SRemove 10), ShardProc 1 (SRemove 10)])
                  (s', [ShardProc 1 (SDone (ShardsRemoved 10 1 (- 10))),
                        ShardProc 1 (SDone (ShardsRemoved 10 1 (- 10)))])
        \<and> shards s' 1 = Some (- 10)"
    by (fastforce dest: run_sched_cstep)
  have "snd (run ?s0 [\<lparr>caller = 2, is_admin = True, command = CmdRemoveShards 1 10\<rparr>,
                      \<lparr>caller = 3, is_admin = True, command = CmdRemoveShards 1 10\<rparr>])
        = [Replied (ShardsRemoved 10 1 0), Replied (ShardsTooFew 1 0 10)]"
    by (simp add: handle_def admin_only_def run_command_def remove_shards_def Let_def
        decrby_shards_def redis_decrby_def redis_incrby_def in_int64_def int64_min_def int64_max_def)
  with reach show ?thesis by blast
qed

text \<open>C15: with at most one \<open>remove_shards\<close> in flight per member, no interleaving of
  shard commands, redemptions and resets makes a shard balance negative: the invariant
  \<open>single_debit\<close> holds in every reachable state.\<close>

theorem single_debit_shards_nonneg:
  assumes "cstep\<^sup>*\<^sup>* (s, ps) (s', ps')" and "single_debit s ps"
  shows "single_debit s' ps' \<and> (\<forall>m. 0 \<le> get_or0 (shards s' m))"
proof -
  have "single_debit s' ps'"
    using assms
  proof (induction rule: rtranclp_induct2)
    case refl
    then show ?case .
  next
    case (step s1 ps1 s2 ps2)
    then show ?case by (blast intro: cstep_single_debit)
  qed
  then show ?thesis by (auto simp: single_debit_def dest: counters_ok_get)
qed

theorem single_debit_shards_nonneg_witness:
  "single_debit \<lparr>tickets = Map.empty, shards = [1 \<mapsto> 10], remaining = [], history = []\<rparr>
     [ShardProc 1 (SRemove 4), ShardProc 1 (SGive 3), ShardProc 2 (SRemove 1)]
   \<and> single_debit \<lparr>tickets = Map.empty, shards = [1 \<mapsto> 9], remaining = [], history = []\<rparr>
       [ShardProc 1 (SDone (ShardsRemoved 4 1 9)), ShardProc 1 (SDone (ShardsGiven 3 1 9)),
        ShardProc 2 (SDone (ShardsTooFew 2 0 1))]"
proof -
  let ?s0 = "\<lparr>tickets = Map.empty, shards = [1 \<mapsto> 10], remaining = [], history = []\<rparr>"
  let ?s1 = "\<lparr>tickets = Map.empty, shards = [1 \<mapsto> 9], remaining = [], history = []\<rparr>"
  let ?ps0 = "[ShardProc 1 (SRemove 4), ShardProc 1 (SGive 3), ShardProc 2 (SRemove 1)]"
  let ?ps1 = "[ShardProc 1 (SDone (ShardsRemoved 4 1 9)), ShardProc 1 (SDone (ShardsGiven 3 1 9)),
        ShardProc 2 (SDone (ShardsTooFew 2 0 1))]"
  have "run_sched [0, 1, 2, 0, 1, 2, 0] ?s0 ?ps0 = (?s1, ?ps1)"
    by (simp add: incrby_shards_def decrby_shards_def redis_decrby_def redis_incrby_def
        in_int64_def int64_min_def int64_max_def)
  then have reach: "cstep\<^sup>*\<^sup>* (?s0, ?ps0) (?s1, ?ps1)" by (rule run_sched_cstep)
  have d0: "single_debit ?s0 ?ps0"
    by (simp add: single_debit_def counters_ok_def removers_distinct_def int64_max_def
        less_Suc_eq all_conj_distrib)
  from single_debit_shards_nonneg [OF reach d0] d0 show ?thesis by simp
qed

end
