(* ===== verification/Ledger.thy ===== *)
theory Ledger
  imports Bot
begin

text \<open>
  The abstract ledger of the spec (sections 3 and 4): ticket and shard balances as natural
  numbers, the reward pool as a multiset, the award log as a list, and the operations
  \<open>grantTicket\<close>, redemption (\<open>redeem_spec\<close>, with a nondeterministic choice of the
  reward), \<open>credit\<close> and \<open>debit\<close> with their errors. The abstraction \<open>abs_store\<close> maps a
  Redis store to a ledger; the lemmas at the end relate each handler of src/bot.py to its
  specification through it.
\<close>

record ledger =
  l_tickets :: "user_id \<Rightarrow> nat"
  l_shards :: "user_id \<Rightarrow> nat"
  l_pool :: "string multiset"
  l_awards :: "hist_entry list"

datatype redeem_result = RWon string | RNoTicket | RPoolExhausted

datatype shard_error = InvalidAmount | InsufficientBalance

text \<open>Section 4.4: no ticket, nothing happens; an empty pool refunds the ticket, so nothing
  changes; otherwise one ticket and one reward of the pool go, one award is logged.\<close>

definition redeem_spec :: "user_id \<Rightarrow> ledger \<Rightarrow> ledger \<Rightarrow> redeem_result \<Rightarrow> bool" where
  "redeem_spec u l l' res \<longleftrightarrow>
     (case res of
        RNoTicket \<Rightarrow> l_tickets l u = 0 \<and> l' = l
      | RPoolExhausted \<Rightarrow> 0 < l_tickets l u \<and> l_pool l = {#} \<and> l' = l
      | RWon r \<Rightarrow>
          0 < l_tickets l u \<and> r \<in># l_pool l \<and>
          l' = l\<lparr>l_tickets := (l_tickets l)(u := l_tickets l u - 1),
                 l_pool := l_pool l - {#r#},
                 l_awards := l_awards l @ [HistEntry (nat_str u) r]\<rparr>)"

definition grant_spec :: "user_id \<Rightarrow> ledger \<Rightarrow> ledger" where
  "grant_spec u l = l\<lparr>l_tickets := (l_tickets l)(u := Suc (l_tickets l u))\<rparr>"

text \<open>Section 4.3: a credit or debit answers the new balance or an error, together with the
  ledger it leaves; a refused operation leaves the ledger as it was (no partial debit).\<close>

definition credit_spec :: "user_id \<Rightarrow> int \<Rightarrow> ledger \<Rightarrow> (shard_error + nat) \<times> ledger" where
  "credit_spec u a l =
     (if a \<le> 0 then (Inl InvalidAmount, l)
      else (Inr (l_shards l u + nat a), l\<lparr>l_shards := (l_shards l)(u := l_shards l u + nat a)\<rparr>))"

definition debit_spec :: "user_id \<Rightarrow> int \<Rightarrow> ledger \<Rightarrow> (shard_error + nat) \<times> ledger" where
  "debit_spec u a l =
     (if a \<le> 0 then (Inl InvalidAmount, l)
      else if int (l_shards l u) < a then (Inl InsufficientBalance, l)
      else (Inr (nat (int (l_shards l u) - a)),
            l\<lparr>l_shards := (l_shards l)(u := nat (int (l_shards l u) - a))\<rparr>))"

subsection \<open>Abstraction of the Redis store\<close>

definition abs_store :: "store \<Rightarrow> ledger" where
  "abs_store s =
     \<lparr>l_tickets = (\<lambda>u. nat (get_or0 (tickets s u))),
      l_shards = (\<lambda>u. nat (get_or0 (shards s u))),
      l_pool = mset (remaining s),
      l_awards = history s\<rparr>"

fun abs_redeem :: "reply \<Rightarrow> redeem_result option" where
  "abs_redeem (Won r) = Some (RWon r)"
| "abs_redeem NoTicket = Some RNoTicket"
| "abs_redeem NoRewardsLeft = Some RPoolExhausted"
| "abs_redeem _ = None"

text \<open>A shard handler's outcome seen by the spec: the error or the reported total, and the
  abstraction of the store the handler leaves, on refusals as well.\<close>

fun abs_shard_outcome :: "error + (store \<times> reply) \<Rightarrow> ((shard_error + nat) \<times> ledger) option" where
  "abs_shard_outcome (Inr (s', AmountNotPositive)) = Some (Inl InvalidAmount, abs_store s')"
| "abs_shard_outcome (Inr (s', ShardsTooFew _ _ _)) = Some (Inl InsufficientBalance, abs_store s')"
| "abs_shard_outcome (Inr (s', ShardsGiven _ _ tot)) = Some (Inr (nat tot), abs_store s')"
| "abs_shard_outcome (Inr (s', ShardsRemoved _ _ tot)) = Some (Inr (nat tot), abs_store s')"
| "abs_shard_outcome _ = None"

lemma abs_store_tickets_upd:
  "0 \<le> n \<Longrightarrow>
   abs_store (s\<lparr>tickets := (tickets s)(u \<mapsto> n)\<rparr>) =
   (abs_store s)\<lparr>l_tickets := (l_tickets (abs_store s))(u := nat n)\<rparr>"
  by (simp add: abs_store_def fun_eq_iff)

lemma abs_store_shards_upd:
  "abs_store (s\<lparr>shards := (shards s)(u \<mapsto> n)\<rparr>) =
   (abs_store s)\<lparr>l_shards := (l_shards (abs_store s))(u := nat n)\<rparr>"
  by (simp add: abs_store_def fun_eq_iff)


subsection \<open>Refinement\<close>

text \<open>A successful draw is the spec's award step on the abstraction.\<close>

lemma abs_store_gacha_won:
  assumes "counters_ok (tickets s)" "0 < get_or0 (tickets s u)" "r \<in> set (remaining s)"
  shows "abs_store (gacha_won_store u r s) =
     (abs_store s)\<lparr>l_tickets := (l_tickets (abs_store s))(u := l_tickets (abs_store s) u - 1),
                   l_pool := l_pool (abs_store s) - {#r#},
                   l_awards := l_awards (abs_store s) @ [HistEntry (nat_str u) r]\<rparr>"
  using assms by (simp add: abs_store_def gacha_won_store_def fun_eq_iff nat_diff_distrib' mset_remove1)

text \<open>C6: the redemption handler refines the spec's redemption: on a well-formed store, except
  when a ticket holder meets an empty pool, its reply and new store are a step the spec
  allows from the abstract ledger.\<close>

theorem gacha_refines:
  assumes ok: "store_ok s" and run: "gacha u k s = Inr (s', rep)"
    and nd: "remaining s \<noteq> [] \<or> get_or0 (tickets s u) \<le> 0"
  shows "\<exists>res. abs_redeem rep = Some res \<and> redeem_spec u (abs_store s) (abs_store s') res"
  using run
proof (cases rule: gacha_Inr_cases)
  case no_ticket
  with ok show ?thesis by (simp add: redeem_spec_def abs_store_def)
next
  case empty
  with nd show ?thesis by simp
next
  case won
  have c: "counters_ok (tickets s)" using ok by (simp add: store_ok_def)
  have r: "py_choice (remaining s) k \<in> set (remaining s)" using won by simp
  show ?thesis using won abs_store_gacha_won [OF c won(1) r]
    by (simp add: redeem_spec_def abs_store_def)
qed

text \<open>C7: a ticket holder meeting an empty pool leaves a store that no outcome of the spec's
  redemption explains: the code keeps the ticket consumed where the spec refunds it.\<close>

theorem gacha_empty_pool_no_spec_step:
  assumes ok: "store_ok s" and t: "0 < get_or0 (tickets s u)" and e: "remaining s = []"
  shows "\<exists>s'. gacha u k s = Inr (s', NoRewardsLeft)
              \<and> (\<forall>res. \<not> redeem_spec u (abs_store s) (abs_store s') res)"
proof -
  have c: "counters_ok (tickets s)" using ok by (simp add: store_ok_def)
  let ?s' = "s\<lparr>tickets := (tickets s)(u \<mapsto> get_or0 (tickets s u) - 1)\<rparr>"
  have g: "gacha u k s = Inr (?s', NoRewardsLeft)" using c t e by (simp add: gacha_eq)
  have "l_tickets (abs_store ?s') u \<noteq> l_tickets (abs_store s) u"
    using t by (simp add: abs_store_def)
  then have ne: "abs_store ?s' \<noteq> abs_store s" by (metis)
  have "\<not> redeem_spec u (abs_store s) (abs_store ?s') res" for res
    using e t ne by (cases res) (simp_all add: redeem_spec_def abs_store_def)
  with g show ?thesis by blast
qed

text \<open>C18: every award the spec allows is one the handler can make: for each reward of the
  pool some value of the random source makes the handler award it, reaching the ledger
  the spec prescribes.\<close>

theorem gacha_complete:
  assumes ok: "store_ok s" and spec: "redeem_spec u (abs_store s) l' (RWon r)"
  shows "\<exists>k s'. gacha u k s = Inr (s', Won r) \<and> abs_store s' = l'"
proof -
  have c: "counters_ok (tickets s)" using ok by (simp add: store_ok_def)
  from spec have t: "0 < get_or0 (tickets s u)" and r: "r \<in> set (remaining s)"
    by (simp_all add: redeem_spec_def abs_store_def)
  from spec have l': "l' = (abs_store s)\<lparr>l_tickets := (l_tickets (abs_store s))(u := l_tickets (abs_store s) u - 1),
                   l_pool := l_pool (abs_store s) - {#r#},
                   l_awards := l_awards (abs_store s) @ [HistEntry (nat_str u) r]\<rparr>"
    by (simp add: redeem_spec_def)
  obtain k where k: "py_choice (remaining s) k = r" using py_choice_any [OF r] by blast
  have "remaining s \<noteq> []" using r by (cases "remaining s") simp_all
  then have "gacha u k s = Inr (gacha_won_store u r s, Won r)"
    using c t k by (simp add: gacha_eq)
  moreover have "abs_store (gacha_won_store u r s) = l'"
    using abs_store_gacha_won [OF c t r] l' by simp
  ultimately show ?thesis by blast
qed

text \<open>C24: below the 64-bit maximum, \<open>add_ticket\<close> implements the spec's \<open>grantTicket\<close>.\<close>

theorem add_ticket_refines:
  assumes "counters_ok (tickets s)" and "get_or0 (tickets s u) < int64_max"
  shows "\<exists>s'. add_ticket u s = Inr (s', TicketAdded u) \<and> abs_store s' = grant_spec u (abs_store s)"
  using assms counters_ok_get [of "tickets s" u]
  by (simp add: add_ticket_eq grant_spec_def abs_store_def fun_eq_iff nat_add_distrib)

text \<open>C28: below the 64-bit maximum, \<open>give_shards\<close> implements the spec's \<open>credit\<close>: the
  reported total is the new balance, and a non-positive amount is refused with every
  balance, the pool and the history left as they were.\<close>

theorem give_shards_refines:
  assumes "counters_ok (shards s)" and "get_or0 (shards s u) + a \<le> int64_max"
  shows "abs_shard_outcome (give_shards u a s) = Some (credit_spec u a (abs_store s))"
  using assms counters_ok_get [of "shards s" u]
  by (auto simp: give_shards_eq credit_spec_def abs_store_def fun_eq_iff nat_add_distrib
      in_int64_def int64_min_def int64_max_def)

text \<open>C29: \<open>remove_shards\<close> implements the spec's \<open>debit\<close> on every input: a non-positive
  amount is invalid and an amount above the balance is refused, both leaving the ledger
  unchanged (no partial debit); otherwise the balance drops by the amount and the reported
  total is the new balance.\<close>

theorem remove_shards_refines:
  assumes "counters_ok (shards s)"
  shows "abs_shard_outcome (remove_shards u a s) = Some (debit_spec u a (abs_store s))"
  using assms counters_ok_get [of "shards s" u]
  by (auto simp: remove_shards_eq debit_spec_def abs_store_def fun_eq_iff)

lemma store_ok_witness_store:
  "store_ok \<lparr>tickets = [1 \<mapsto> 1], shards = Map.empty, remaining = [''5''], history = []\<rparr>"
  by (simp add: store_ok_def counters_ok_def int64_max_def initial_rewards_def)

theorem gacha_refines_witness:
  "store_ok \<lparr>tickets = [1 \<mapsto> 1], shards = Map.empty, remaining = [''5''], history = []\<rparr>
   \<and> gacha 1 0 \<lparr>tickets = [1 \<mapsto> 1], shards = Map.empty, remaining = [''5''], history = []\<rparr>
       = Inr (\<lparr>tickets = [1 \<mapsto> 0], shards = Map.empty, remaining = [],
               history = [HistEntry ''1'' ''5'']\<rparr>, Won ''5'')
   \<and> [''5''] \<noteq> []
   \<and> redeem_spec 1
       (abs_store \<lparr>tickets = [1 \<mapsto> 1], shards = Map.empty, remaining = [''5''], history = []\<rparr>)
       (abs_store \<lparr>tickets = [1 \<mapsto> 0], shards = Map.empty, remaining = [],
                   history = [HistEntry ''1'' ''5'']\<rparr>) (RWon ''5'')"
proof -
  let ?s = "\<lparr>tickets = [1 \<mapsto> 1], shards = Map.empty, remaining = [''5''], history = []\<rparr>"
  let ?s' = "\<lparr>tickets = [1 \<mapsto> 0], shards = Map.empty, remaining = [],
               history = [HistEntry ''1'' ''5'']\<rparr>"
  have ok: "store_ok ?s" by (rule store_ok_witness_store)
  have c: "counters_ok [1 \<mapsto> (1::int)]" by (simp add: counters_ok_def int64_max_def)
  have n: "nat_str 1 = ''1''" by code_simp
  have g: "gacha 1 0 ?s = Inr (?s', Won ''5'')"
    using c n by (simp add: gacha_eq gacha_won_store_def py_choice_def)
  from gacha_refines [OF ok g] have "redeem_spec 1 (abs_store ?s) (abs_store ?s') (RWon ''5'')"
    by simp
  with ok g show ?thesis by simp
qed

theorem gacha_empty_pool_no_spec_step_witness:
  "store_ok \<lparr>tickets = [1 \<mapsto> 1], shards = Map.empty, remaining = [], history = []\<rparr>
   \<and> 0 < get_or0 ([1 \<mapsto> (1::int)] 1)
   \<and> gacha 1 0 \<lparr>tickets = [1 \<mapsto> 1], shards = Map.empty, remaining = [], history = []\<rparr>
       = Inr (\<lparr>tickets = [1 \<mapsto> 0], shards = Map.empty, remaining = [], history = []\<rparr>,
              NoRewardsLeft)
   \<and> \<not> redeem_spec 1
       (abs_store \<lparr>tickets = [1 \<mapsto> 1], shards = Map.empty, remaining = [], history = []\<rparr>)
       (abs_store \<lparr>tickets = [1 \<mapsto> 0], shards = Map.empty, remaining = [], history = []\<rparr>)
       RPoolExhausted"
proof -
  let ?s = "\<lparr>tickets = [1 \<mapsto> 1], shards = Map.empty, remaining = [], history = []\<rparr>"
  let ?s' = "\<lparr>tickets = [1 \<mapsto> 0], shards = Map.empty, remaining = [], history = []\<rparr>"
  have ok: "store_ok ?s" by (simp add: store_ok_def counters_ok_def int64_max_def)
  have c: "counters_ok [1 \<mapsto> (1::int)]" by (simp add: counters_ok_def int64_max_def)
  have g: "gacha 1 0 ?s = Inr (?s', NoRewardsLeft)" using c by (simp add: gacha_eq)
  obtain s' where "gacha 1 0 ?s = Inr (s', NoRewardsLeft)"
    and "\<forall>res. \<not> redeem_spec 1 (abs_store ?s) (abs_store s') res"
    using gacha_empty_pool_no_spec_step [of ?s 1 0] ok by auto
  with ok g show ?thesis by simp
qed

theorem gacha_complete_witness:
  "store_ok \<lparr>tickets = [1 \<mapsto> 1], shards = Map.empty, remaining = [''5''], history = []\<rparr>
   \<and> redeem_spec 1
       (abs_store \<lparr>tickets = [1 \<mapsto> 1], shards = Map.empty, remaining = [''5''], history = []\<rparr>)
       (abs_store \<lparr>tickets = [1 \<mapsto> 0], shards = Map.empty, remaining = [],
                   history = [HistEntry ''1'' ''5'']\<rparr>) (RWon ''5'')
   \<and> (\<exists>k s'. gacha 1 k \<lparr>tickets = [1 \<mapsto> 1], shards = Map.empty, remaining = [''5''],
                        history = []\<rparr> = Inr (s', Won ''5'')
              \<and> abs_store s' = abs_store \<lparr>tickets = [1 \<mapsto> 0], shards = Map.empty,
                   remaining = [], history = [HistEntry ''1'' ''5'']\<rparr>)"
proof -
  let ?s = "\<lparr>tickets = [1 \<mapsto> 1], shards = Map.empty, remaining = [''5''], history = []\<rparr>"
  let ?s' = "\<lparr>tickets = [1 \<mapsto> 0], shards = Map.empty, remaining = [],
               history = [HistEntry ''1'' ''5'']\<rparr>"
  have ok: "store_ok ?s" by (rule store_ok_witness_store)
  have n: "nat_str 1 = ''1''" by code_simp
  have sp: "redeem_spec 1 (abs_store ?s) (abs_store ?s') (RWon ''5'')"
    using n by (simp add: redeem_spec_def abs_store_def fun_eq_iff)
  show ?thesis using gacha_complete [OF ok sp] ok sp by simp
qed

theorem add_ticket_refines_witness:
  "counters_ok (tickets empty_store) \<and> get_or0 (tickets empty_store 5) < int64_max
   \<and> add_ticket 5 empty_store = Inr (empty_store\<lparr>tickets := [5 \<mapsto> 1]\<rparr>, TicketAdded 5)
   \<and> abs_store (empty_store\<lparr>tickets := [5 \<mapsto> 1]\<rparr>) = grant_spec 5 (abs_store empty_store)"
proof -
  have h: "counters_ok (tickets empty_store)" "get_or0 (tickets empty_store 5) < int64_max"
    by (simp_all add: empty_store_def int64_max_def)
  obtain s' where "add_ticket 5 empty_store = Inr (s', TicketAdded 5)"
    and "abs_store s' = grant_spec 5 (abs_store empty_store)"
    using add_ticket_refines [OF h] by blast
  moreover have "add_ticket 5 empty_store = Inr (empty_store\<lparr>tickets := [5 \<mapsto> 1]\<rparr>, TicketAdded 5)"
    using h by (simp add: add_ticket_eq empty_store_def)
  ultimately show ?thesis using h by simp
qed

theorem give_shards_refines_witness:
  "counters_ok (shards empty_store) \<and> get_or0 (shards empty_store 3) + 10 \<le> int64_max
   \<and> abs_shard_outcome (give_shards 3 10 empty_store) = Some (credit_spec 3 10 (abs_store empty_store))
   \<and> credit_spec 3 10 (abs_store empty_store) =
       (Inr 10, abs_store (empty_store\<lparr>shards := [3 \<mapsto> 10]\<rparr>))"
proof -
  have h: "counters_ok (shards empty_store)" "get_or0 (shards empty_store 3) + 10 \<le> int64_max"
    by (simp_all add: empty_store_def int64_max_def)
  have "credit_spec 3 10 (abs_store empty_store) =
          (Inr 10, abs_store (empty_store\<lparr>shards := [3 \<mapsto> 10]\<rparr>))"
    by (simp add: credit_spec_def abs_store_def empty_store_def fun_eq_iff)
  with give_shards_refines [OF h] h show ?thesis by simp
qed

theorem remove_shards_refines_witness:
  "counters_ok [3 \<mapsto> 4]
   \<and> abs_shard_outcome (remove_shards 3 5 (empty_store\<lparr>shards := [3 \<mapsto> 4]\<rparr>))
       = Some (debit_spec 3 5 (abs_store (empty_store\<lparr>shards := [3 \<mapsto> 4]\<rparr>)))
   \<and> debit_spec 3 5 (abs_store (empty_store\<lparr>shards := [3 \<mapsto> 4]\<rparr>)) =
       (Inl InsufficientBalance, abs_store (empty_store\<lparr>shards := [3 \<mapsto> 4]\<rparr>))"
proof -
  have h: "counters_ok (shards (empty_store\<lparr>shards := [3 \<mapsto> 4]\<rparr>))"
    by (simp add: counters_ok_def int64_max_def)
  have "debit_spec 3 5 (abs_store (empty_store\<lparr>shards := [3 \<mapsto> 4]\<rparr>)) =
          (Inl InsufficientBalance, abs_store (empty_store\<lparr>shards := [3 \<mapsto> 4]\<rparr>))"
    by (simp add: debit_spec_def abs_store_def)
  with remove_shards_refines [OF h] h show ?thesis by simp
qed

end
