(* ===== verification/Json.thy ===== *)
theory Json
  imports Store
begin

text \<open>
  The JSON text of a history entry. \<open>gacha\<close> appends
  \<open>json.dumps({"user": user_id, "reward": reward})\<close> (src/bot.py, line 49) and the
  readers \<open>rewards\<close> and \<open>last_winners\<close> decode each element with \<open>json.loads\<close>
  (lines 107 and 119). The encoder follows CPython's \<open>json\<close> module with its defaults:
  \<open>ensure_ascii\<close> (every character outside space..tilde is escaped, with the short forms
  for quote, backslash, backspace, form feed, newline, carriage return and tab, and
  \<open>\u00XX\<close> in lowercase hex otherwise) and the separators \<open>", "\<close> and \<open>": "\<close>. The
  decoder is CPython's strict scanner for objects whose member values are strings: JSON
  whitespace, escapes (hex digits of either case), control characters refused, duplicate
  keys resolved to the last, trailing data refused. A string is a list of 8-bit
  characters, so a \<open>\uXXXX\<close> escape above 255 and values that are not strings are
  outside the model (\<open>None\<close>).
\<close>

abbreviation json_quote :: char where "json_quote \<equiv> CHR 0x22"
abbreviation json_bslash :: char where "json_bslash \<equiv> CHR 0x5C"

definition hex_digit :: "nat \<Rightarrow> char" where
  "hex_digit d = (if d < 10 then char_of (48 + d) else char_of (87 + d))"

definition hex_val :: "char \<Rightarrow> nat option" where
  "hex_val c =
     (let n = of_char c :: nat in
      if 48 \<le> n \<and> n \<le> 57 then Some (n - 48)
      else if 97 \<le> n \<and> n \<le> 102 then Some (n - 87)
      else if 65 \<le> n \<and> n \<le> 70 then Some (n - 55)
      else None)"

text \<open>\<open>ESCAPE_ASCII\<close> / \<open>ESCAPE_DCT\<close> of the encoder.\<close>

definition json_esc_char :: "char \<Rightarrow> string" where
  "json_esc_char c =
     (let n = of_char c :: nat in
      if c = json_quote then [json_bslash, json_quote]
      else if c = json_bslash then [json_bslash, json_bslash]
      else if n = 8 then [json_bslash, CHR ''b'']
      else if n = 12 then [json_bslash, CHR ''f'']
      else if n = 10 then [json_bslash, CHR ''n'']
      else if n = 13 then [json_bslash, CHR ''r'']
      else if n = 9 then [json_bslash, CHR ''t'']
      else if 32 \<le> n \<and> n \<le> 126 then [c]
      else [json_bslash, CHR ''u'', CHR ''0'', CHR ''0'', hex_digit (n div 16), hex_digit (n mod 16)])"

definition json_str_enc :: "string \<Rightarrow> string" where
  "json_str_enc s = [json_quote] @ concat (map json_esc_char s) @ [json_quote]"

text \<open>\<open>json.dumps\<close> of the two-key dictionary, keys in insertion order.\<close>

primrec json_dumps_entry :: "hist_entry \<Rightarrow> string" where
  "json_dumps_entry (HistEntry u r) =
     ''{'' @ json_str_enc ''user'' @ '': '' @ json_str_enc u @ '', ''
     @ json_str_enc ''reward'' @ '': '' @ json_str_enc r @ ''}''"

text \<open>Decoding: \<open>scanstring\<close> from the character after the opening quote to the closing
  quote; it answers the decoded string and the rest of the input.\<close>

definition json_unescape :: "char \<Rightarrow> char option" where
  "json_unescape e =
     (if e = json_quote then Some json_quote
      else if e = json_bslash then Some json_bslash
      else if e = CHR ''/'' then Some (CHR ''/'')
      else if e = CHR ''b'' then Some (char_of (8::nat))
      else if e = CHR ''f'' then Some (char_of (12::nat))
      else if e = CHR ''n'' then Some (char_of (10::nat))
      else if e = CHR ''r'' then Some (char_of (13::nat))
      else if e = CHR ''t'' then Some (char_of (9::nat))
      else None)"

definition hex4 :: "char \<Rightarrow> char \<Rightarrow> char \<Rightarrow> char \<Rightarrow> nat option" where
  "hex4 a b c d =
     (case (hex_val a, hex_val b, hex_val c, hex_val d) of
        (Some x1, Some x2, Some x3, Some x4) \<Rightarrow> Some (((x1 * 16 + x2) * 16 + x3) * 16 + x4)
      | _ \<Rightarrow> None)"

fun json_scan :: "string \<Rightarrow> (string \<times> string) option" where
  "json_scan [] = None"
| "json_scan (c # cs) =
     (if c = json_quote then Some ([], cs)
      else if c = json_bslash then
        (case cs of
           [] \<Rightarrow> None
         | e # cs1 \<Rightarrow>
             if e = CHR ''u'' then
               (case cs1 of
                  a # b # c' # d # cs2 \<Rightarrow>
                    (case hex4 a b c' d of
                       Some n \<Rightarrow>
                         if n < 256 then map_option (apfst (Cons (char_of n))) (json_scan cs2)
                         else None
                     | None \<Rightarrow> None)
                | _ \<Rightarrow> None)
             else
               (case json_unescape e of
                  Some x \<Rightarrow> map_option (apfst (Cons x)) (json_scan cs1)
                | None \<Rightarrow> None))
      else if of_char c < (32::nat) then None
      else map_option (apfst (Cons c)) (json_scan cs))"

definition json_ws :: "string \<Rightarrow> string" where
  "json_ws s = dropWhile (\<lambda>c. c = CHR '' '' \<or> c = CHR 0x09 \<or> c = CHR 0x0A \<or> c = CHR 0x0D) s"

lemma json_scan_shorter_snd: "json_scan s = Some p \<Longrightarrow> length (snd p) < length s"
proof (induction s arbitrary: p rule: json_scan.induct)
  case 1
  then show ?case by simp
next
  case (2 c cs)
  then show ?case
    by (fastforce simp: map_option_eq_Some split: if_split_asm list.split_asm option.split_asm)
qed

lemma json_scan_shorter: "json_scan s = Some (v, r) \<Longrightarrow> length r < length s"
  using json_scan_shorter_snd [of s "(v, r)"] by simp

lemma json_ws_shorter: "length (json_ws s) \<le> length s"
  by (simp add: json_ws_def length_dropWhile_le)

lemma json_members_term:
  assumes "json_ws s = c # s1" "json_scan s1 = Some (k, s2)" "json_ws s2 = d # s3"
    "json_ws s3 = q # s4" "json_scan s4 = Some (v, s5)" "json_ws s5 = e # s6"
  shows "length s6 < length s"
  using assms json_ws_shorter [of s] json_ws_shorter [of s2] json_ws_shorter [of s3]
    json_ws_shorter [of s5] json_scan_shorter [of s1 k s2] json_scan_shorter [of s4 v s5]
  by simp

text \<open>The members of an object, after its opening brace: \<open>"key": "value"\<close> pairs
  separated by commas, up to the closing brace.\<close>

function json_members :: "string \<Rightarrow> ((string \<times> string) list \<times> string) option" where
  "json_members s =
     (case json_ws s of
        [] \<Rightarrow> None
      | c # s1 \<Rightarrow>
          (if c \<noteq> json_quote then None
           else (case json_scan s1 of
             None \<Rightarrow> None
           | Some (k, s2) \<Rightarrow>
               (case json_ws s2 of
                  [] \<Rightarrow> None
                | d # s3 \<Rightarrow>
                    (if d \<noteq> CHR '':'' then None
                     else (case json_ws s3 of
                       [] \<Rightarrow> None
                     | q # s4 \<Rightarrow>
                         (if q \<noteq> json_quote then None
                          else (case json_scan s4 of
                            None \<Rightarrow> None
                          | Some (v, s5) \<Rightarrow>
                              (case json_ws s5 of
                                 [] \<Rightarrow> None
                               | e # s6 \<Rightarrow>
                                   (if e = CHR '','' then
                                      map_option (apfst (Cons (k, v))) (json_members s6)
                                    else if e = CHR ''}'' then Some ([(k, v)], s6)
                                    else None))))))))))"
  by pat_completeness auto
termination
  by (relation "measure length") (auto intro: json_members_term)

definition json_object :: "string \<Rightarrow> ((string \<times> string) list \<times> string) option" where
  "json_object s =
     (case json_ws s of
        c # s1 \<Rightarrow>
          if c \<noteq> CHR ''{'' then None
          else (case json_ws s1 of
                  d # s2 \<Rightarrow> if d = CHR ''}'' then Some ([], s2) else json_members s1
                | [] \<Rightarrow> None)
      | [] \<Rightarrow> None)"

text \<open>\<open>json.loads(h)\<close> followed by \<open>h['user']\<close> and \<open>h['reward']\<close>: \<open>None\<close> stands for
  the \<open>JSONDecodeError\<close> or \<open>KeyError\<close> the reader would raise.\<close>

definition json_loads_entry :: "string \<Rightarrow> hist_entry option" where
  "json_loads_entry s =
     (case json_object s of
        None \<Rightarrow> None
      | Some (kvs, rest) \<Rightarrow>
          if json_ws rest \<noteq> [] then None
          else case (map_of (rev kvs) ''user'', map_of (rev kvs) ''reward'') of
                 (Some u, Some r) \<Rightarrow> Some (HistEntry u r)
               | _ \<Rightarrow> None)"

subsection \<open>Round trip\<close>

lemma hex_val_hex_digit [simp]: "d < 16 \<Longrightarrow> hex_val (hex_digit d) = Some d"
  by (simp add: hex_digit_def hex_val_def of_char_of Let_def)

lemma hex4_byte: "n < 256 \<Longrightarrow> hex4 (CHR ''0'') (CHR ''0'') (hex_digit (n div 16)) (hex_digit (n mod 16)) = Some n"
proof -
  assume "n < 256"
  then have "n div 16 < 16" "n mod 16 < 16" by simp_all
  moreover have "hex_val (CHR ''0'') = Some 0" by (simp add: hex_val_def)
  moreover have "(n div 16) * 16 + n mod 16 = n" by simp
  ultimately show ?thesis by (simp add: hex4_def)
qed

lemma json_scan_esc_char:
  "json_scan (json_esc_char c @ t) = map_option (apfst (Cons c)) (json_scan t)"
proof -
  define n where "n = (of_char c :: nat)"
  have c: "c = char_of n" by (simp add: n_def)
  have n256: "n < 256" by (simp add: n_def)
  show ?thesis
  proof (cases "c = json_quote \<or> c = json_bslash")
    case True
    then show ?thesis by (auto simp: json_esc_char_def json_unescape_def)
  next
    case nqb: False
    show ?thesis
    proof (cases "n \<in> {8, 9, 10, 12, 13}")
      case True
      with nqb show ?thesis
        by (auto simp: json_esc_char_def json_unescape_def Let_def n_def [symmetric] c)
    next
      case False
      show ?thesis
      proof (cases "32 \<le> n \<and> n \<le> 126")
        case True
        with nqb False show ?thesis
          by (auto simp: json_esc_char_def Let_def n_def [symmetric])
      next
        case np: False
        with nqb False n256 show ?thesis
          by (auto simp: json_esc_char_def Let_def n_def [symmetric] hex4_byte c)
      qed
    qed
  qed
qed

lemma json_scan_enc:
  "json_scan (concat (map json_esc_char s) @ json_quote # rest) = Some (s, rest)"
  by (induction s) (simp_all add: json_scan_esc_char)

lemma json_ws_enc [simp]: "json_ws (json_str_enc s @ rest) = json_str_enc s @ rest"
  by (simp add: json_ws_def json_str_enc_def)

lemma json_members_space: "json_members (CHR '' '' # s) = json_members s"
  by (simp add: json_members.simps [of "CHR '' '' # s"] json_members.simps [of s] json_ws_def)

lemma json_members_comma:
  "json_members (json_str_enc k @ CHR '':'' # CHR '' '' # json_str_enc v @ CHR '','' # rest) =
   map_option (apfst (Cons (k, v))) (json_members rest)"
  by (subst json_members.simps) (simp add: json_str_enc_def json_ws_def json_scan_enc)

lemma json_members_close:
  "json_members (json_str_enc k @ CHR '':'' # CHR '' '' # json_str_enc v @ CHR ''}'' # rest) =
   Some ([(k, v)], rest)"
  by (subst json_members.simps) (simp add: json_str_enc_def json_ws_def json_scan_enc)

lemma json_object_members:
  "json_object (CHR ''{'' # json_str_enc k @ rest) = json_members (json_str_enc k @ rest)"
  by (simp add: json_object_def json_ws_def json_str_enc_def)

lemma json_loads_dumps: "json_loads_entry (json_dumps_entry e) = Some e"
proof (cases e)
  case (HistEntry u r)
  have d: "json_dumps_entry e =
    CHR ''{'' # json_str_enc ''user'' @ CHR '':'' # CHR '' '' # json_str_enc u @ CHR '','' #
    CHR '' '' # json_str_enc ''reward'' @ CHR '':'' # CHR '' '' # json_str_enc r @ CHR ''}'' # []"
    by (simp add: HistEntry)
  have "json_object (json_dumps_entry e) = Some ([(''user'', u), (''reward'', r)], [])"
    unfolding d json_object_members json_members_comma json_members_space json_members_close
    by simp
  then show ?thesis by (simp add: json_loads_entry_def HistEntry json_ws_def)
qed

text \<open>C36: decoding the history list with \<open>json.loads\<close> gives back, in order, every entry
  that was appended as \<open>json.dumps\<close> text: keeping the entries decoded in the store
  loses nothing the readers see.\<close>

theorem json_history_roundtrip: "those (map json_loads_entry (map json_dumps_entry hs)) = Some hs"
  by (induction hs) (simp_all add: json_loads_dumps)

end
