(* ===== verification/Spec2Isabelle.thy ===== *)
theory Spec2Isabelle
  imports Debits Ledger Json
begin

text \<open>
  \<^bold>\<open>A verified model of the gacha and shards bot (src/bot.py).\<close>

  \<^emph>\<open>The program.\<close> src/bot.py is a Discord bot whose whole state lives in Redis. Members
  redeem tickets for rewards drawn from a depleting pool (\<open>gacha\<close>); administrators
  grant tickets (\<open>add_ticket\<close>), inspect the pool (\<open>remaining\<close>), refill it
  (\<open>reset\<close>), read the winners (\<open>last_winners\<close>) and credit or debit a point currency
  (\<open>give_shards\<close>, \<open>remove_shards\<close>); anyone reads the recent history
  (\<open>rewards\<close>) and their own shards (\<open>shards\<close>). Each slash command is one
  coroutine that issues blocking Redis calls and then answers; there is no \<open>await\<close>
  between the Redis calls of a handler, so one bot process runs the handlers one after
  the other, each to completion. The components interact only through the Redis keys
  \<open>tickets:<id>\<close>, \<open>shards:<id>\<close>, \<open>rewards:remaining\<close> and \<open>rewards:history\<close>.

  \<^emph>\<open>The library.\<close>
  \<^item> Prelude.thy: the user-id type, \<open>int(r.get(k) or 0)\<close> as \<open>get_or0\<close>,
    \<open>random.choice\<close> as an index oracle \<open>py_choice\<close> (the drawn number \<open>k\<close> is a
    parameter of the model, so every element of the list can be drawn and no other),
    and shared list, multiset and arithmetic lemmas.
  \<^item> Redis.thy: the semantics of the Redis commands the bot issues: \<open>INCRBY\<close>,
    \<open>DECRBY\<close> (with \<open>INCR\<close>, \<open>DECR\<close> as increments of 1 and -1) on signed 64-bit
    counters with Redis's overflow test (an error, and no write, past
    \<open>2^63-1\<close>), \<open>LRANGE\<close> with negative indices (shown equal to the documented
    reading \<open>lrange_ref\<close>), \<open>LREM\<close>, \<open>RPUSH\<close>.
  \<^item> Decimal.thy: Python's \<open>str(n)\<close> (\<open>nat_str\<close>) and \<open>int(s)\<close> (\<open>py_int\<close>, with
    whitespace, sign and underscores, \<open>None\<close> for \<open>ValueError\<close>), and their round trip.
  \<^item> Store.thy: the keyspace as the record \<open>store\<close>, the decoded history entry, the
    error type (\<open>RedisError\<close>, \<open>ValueError\<close>), the replies, one adapter operation per
    Redis call of the bot (\<open>incr_tickets\<close>, \<open>decr_tickets\<close>, \<open>incrby_shards\<close>,
    \<open>decrby_shards\<close>, \<open>lrem_remaining\<close>, \<open>del_remaining\<close>, \<open>rpush_remaining\<close>,
    \<open>rpush_history\<close>) and the well-formedness of counters (\<open>counters_ok\<close>).
  \<^item> Gacha.thy: the redemption handler \<open>gacha\<close> (lines 31-55), its characterisation on
    every branch, and its conservation of rewards.
  \<^item> Tickets.thy: \<open>add_ticket\<close> (lines 58-62). Pool.thy: \<open>reset\<close> (91-101) with the
    list \<open>initial_rewards\<close>, and \<open>remaining_rewards\<close> (65-88) with \<open>parse_ints\<close>,
    \<open>band_count\<close>, \<open>summarize\<close>. Shards.thy: \<open>give_shards\<close> (127-135),
    \<open>remove_shards\<close> (138-153), \<open>check_shards\<close> (156-160). History.thy:
    \<open>rewards_history\<close> (104-111) and \<open>last_winners\<close> (114-124).
  \<^item> Bot.thy: the command table (\<open>command\<close>, \<open>run_command\<close>), the administrator check
    (\<open>admin_only\<close>, \<open>handle\<close>), runs of requests in order (\<open>run\<close>), the store
    invariant \<open>store_ok\<close> and its preservation, and the conservation relation
    \<open>conserves\<close> between pool and history.
  \<^item> Interleave.thy: several bot processes on one Redis. \<open>gacha\<close>, \<open>reset\<close>,
    \<open>give_shards\<close> and \<open>remove_shards\<close> are split into their single Redis commands
    (program points \<open>gpc\<close>, \<open>rpc\<close>, \<open>spc\<close>, one command per \<open>gacha_step\<close>,
    \<open>reset_step\<close> or \<open>shard_step\<close>); \<open>cstep\<close> lets any in-flight handler take its next
    command, \<open>run_sched\<close> runs an explicit schedule, \<open>gacha_run\<close> runs one process alone
    with fuel. Five units of fuel are enough: the handler issues at most five commands
    (\<open>GET\<close>, \<open>DECR\<close>, \<open>LRANGE\<close>, \<open>LREM\<close>, \<open>RPUSH\<close>), and Interleave.thy
    shows that with any fuel from five on the lone process ends as the atomic handler.
  \<^item> Debits.thy: the shard handlers under concurrency: \<open>shard_run\<close> (three units of fuel
    suffice, one per command of \<open>remove_shards\<close>), the check-then-act race of
    \<open>remove_shards\<close>, and the invariant \<open>single_debit\<close> (one debit in flight per member).
  \<^item> Json.thy: the JSON text of a history entry: \<open>json_dumps_entry\<close> is
    \<open>json.dumps\<close> of the entry dictionary (line 49) with CPython's defaults, and
    \<open>json_loads_entry\<close> is \<open>json.loads\<close> followed by the two key lookups of the
    readers (lines 107 and 119), for objects whose values are strings; the decoder's
    recursion over members terminates because every step consumes input.
  \<^item> Ledger.thy: the abstract ledger of the spec (sections 3 and 4): balances as natural
    numbers, the pool as a multiset, the award log, and the spec's operations
    (\<open>redeem_spec\<close> as a relation, since the spec lets any pool reward be drawn;
    \<open>grant_spec\<close>, \<open>credit_spec\<close>, \<open>debit_spec\<close> as functions with their errors).
    \<open>abs_store\<close> maps a Redis store to a ledger; \<open>abs_redeem\<close> and
    \<open>abs_shard_outcome\<close> map replies to spec outcomes; a shard outcome carries the
    reported total and the abstraction of the store left behind, so a refusal that wrote
    anything would not refine the spec.
  \<^item> This theory: the properties that span components.
  Every handler returns \<open>error + (store \<times> reply)\<close>; a handler that raises does so
  before its first write (Redis refuses an overflowing increment without writing, and
  \<open>int()\<close> fails before anything is written), so an \<open>Inl\<close> leaves the store as it was.

  \<^emph>\<open>What is proved.\<close> The store invariant holds in every state reachable from an empty
  Redis (balances are non-negative 64-bit integers, the pool holds distinct identifiers
  of the reset list); between two resets every reward is either in the pool or in exactly
  one history entry appended since (pool size plus awards is 200, no reward awarded twice);
  each handler's behaviour on every branch, errors included; the reset/summary round trip
  the \<open>str\<close>/\<open>int\<close> round trip and the JSON round trip of history entries (so the
  store keeps the entries decoded without loss, and what a reader shows of a win names
  the winner and the reward); the administrator check; the scenarios of the
  spec's section 8. Several theorems record where the code departs from the spec: a
  ticket is consumed without refund when the pool is empty (Gacha.thy), \<open>rewards\<close>
  shows everyone's entries, and \<open>last_winners\<close> with a count of 0 shows the whole
  history (History.thy); and, across processes, a ticket can be spent twice, a reward
  awarded twice, and a redemption during a reset loses its ticket (Interleave.thy), while
  with one redemption in flight per member counters stay non-negative and no interleaving
  ever awards a reward outside the reset list. Against the abstract ledger (Ledger.thy):
  \<open>add_ticket\<close>, \<open>give_shards\<close> and \<open>remove_shards\<close> implement \<open>grantTicket\<close>,
  \<open>credit\<close> and \<open>debit\<close> (below the 64-bit limit), refusals leaving the ledger
  unchanged and the reported totals being the new balances; \<open>gacha\<close> refines redemption
  on every branch but one, and can make every award the spec allows; the one exception,
  a ticket holder meeting an empty pool, leaves a store no spec outcome explains. Two
  concurrent debits can overdraw a balance (Debits.thy), while with one debit in flight per
  member balances stay non-negative.

  \<^emph>\<open>Bounds.\<close> Redis counters are signed 64-bit; the model keeps them as \<open>int\<close> with the
  range \<open>[-2^63, 2^63-1]\<close> checked as Redis checks it. Python integers (amounts, counts)
  are unbounded \<open>int\<close>. No loop of the code needs fuel: every recursion of the model is
  structural, on \<open>n div 10\<close>, or (the JSON member parser) on the length of the input
  left. Fuel appears only in running a process alone: five steps for \<open>gacha\<close>, three
  for the shard handlers, which is their number of Redis commands.

  \<^emph>\<open>Not modelled.\<close> The Discord gateway, login and command sync (\<open>on_ready\<close>,
  \<open>bot.run\<close>), message wording, the announcement in the reward channel (output only),
  the environment variables. The process configuration is taken to be valid: after a
  win, \<open>gacha\<close> reads \<open>int(os.getenv("REWARD_CHANNEL"))\<close> (line 53); if that variable
  were missing or not an integer the handler would raise after its writes, with the
  ticket consumed, the reward removed and the history appended but no reply sent. The
  model of \<open>gacha\<close> stops at its reply (line 51). Strings are lists of 8-bit characters: a user id or reward
  is ASCII, and JSON escapes above 255 are outside the model.

  \<^emph>\<open>Plan for the next steps.\<close> (1) Refinement of whole runs of requests by runs of the
  abstract ledger. (2) The concurrent counterpart of the epoch accounting: multiset
  conservation of rewards under interleavings without races on the pool.
\<close>

text \<open>C1: between two resets the rewards are accounted for: after an administrator's reset
  and any requests that are not resets, the pool size plus the number of history entries
  appended since the reset is 200, and the rewards of those entries are distinct rewards
  of the reset list (no reward is awarded twice within an epoch).\<close>

theorem epoch_accounting:
  assumes "store_ok s" and "is_admin rq" and "command rq = CmdReset"
    and "\<forall>r \<in> set rqs. command r \<noteq> CmdReset"
    and "s' = fst (run s (rq # rqs))"
  shows "length (remaining s') + length (drop (length (history s)) (history s')) = 200
         \<and> distinct (map entry_reward (drop (length (history s)) (history s')))
         \<and> set (map entry_reward (drop (length (history s)) (history s'))) \<subseteq> set initial_rewards"
proof -
  let ?s1 = "s\<lparr>remaining := initial_rewards\<rparr>"
  let ?aw = "map entry_reward (drop (length (history s)) (history s'))"
  from assms(2,3,5) have "s' = fst (run ?s1 rqs)"
    by (simp add: run_Cons_fst handle_reset del: run.simps(2))
  with run_conserves [OF assms(4)] have "conserves ?s1 s'" by simp
  then have m: "mset initial_rewards = mset (remaining s') + mset ?aw"
    by (simp add: conserves_def)
  then have "length initial_rewards = length (remaining s') + length ?aw"
    by (metis size_mset size_union)
  moreover have "distinct ?aw"
    using m distinct_initial_rewards by (rule distinct_mset_part)
  moreover have "set ?aw \<subseteq> set initial_rewards"
    using arg_cong [OF m, of set_mset] by auto
  ultimately show ?thesis by (simp add: length_initial_rewards)
qed

theorem epoch_accounting_witness:
  "store_ok empty_store \<and> is_admin \<lparr>caller = 1, is_admin = True, command = CmdReset\<rparr>
   \<and> command \<lparr>caller = 1, is_admin = True, command = CmdReset\<rparr> = CmdReset
   \<and> command \<lparr>caller = 1, is_admin = True, command = CmdAddTicket 2\<rparr> \<noteq> CmdReset
   \<and> command \<lparr>caller = 2, is_admin = False, command = CmdGacha 7\<rparr> \<noteq> CmdReset
   \<and> length (remaining (fst (run empty_store
         [\<lparr>caller = 1, is_admin = True, command = CmdReset\<rparr>,
          \<lparr>caller = 1, is_admin = True, command = CmdAddTicket 2\<rparr>,
          \<lparr>caller = 2, is_admin = False, command = CmdGacha 7\<rparr>])))
     + length (history (fst (run empty_store
         [\<lparr>caller = 1, is_admin = True, command = CmdReset\<rparr>,
          \<lparr>caller = 1, is_admin = True, command = CmdAddTicket 2\<rparr>,
          \<lparr>caller = 2, is_admin = False, command = CmdGacha 7\<rparr>]))) = 200"
  using store_ok_empty
    epoch_accounting [of empty_store "\<lparr>caller = 1, is_admin = True, command = CmdReset\<rparr>"
      "[\<lparr>caller = 1, is_admin = True, command = CmdAddTicket 2\<rparr>,
        \<lparr>caller = 2, is_admin = False, command = CmdGacha 7\<rparr>]"]
  by (simp add: empty_store_def del: run.simps)

text \<open>C2: every store the bot can reach from an empty Redis is well formed: ticket and
  shard balances are non-negative 64-bit integers, the pool holds distinct identifiers of
  the reset list and every awarded reward is one of them.\<close>

theorem reachable_store_ok:
  "store_ok (fst (run empty_store rqs))
   \<and> (\<forall>u. 0 \<le> get_or0 (tickets (fst (run empty_store rqs)) u)
          \<and> 0 \<le> get_or0 (shards (fst (run empty_store rqs)) u))"
proof -
  have ok: "store_ok (fst (run empty_store rqs))"
    by (rule run_store_ok [OF store_ok_empty])
  then show ?thesis
    by (auto simp: store_ok_def dest: counters_ok_get)
qed

theorem reachable_store_ok_witness:
  "store_ok (fst (run empty_store [\<lparr>caller = 1, is_admin = True, command = CmdAddTicket 2\<rparr>]))
   \<and> get_or0 (tickets (fst (run empty_store
        [\<lparr>caller = 1, is_admin = True, command = CmdAddTicket 2\<rparr>])) 2) = 1"
proof -
  have "get_or0 (tickets (fst (run empty_store
          [\<lparr>caller = 1, is_admin = True, command = CmdAddTicket 2\<rparr>])) 2) = 1"
    by (simp add: handle_def admin_only_def run_command_def add_ticket_eq empty_store_def
        int64_max_def)
  with reachable_store_ok [of "[\<lparr>caller = 1, is_admin = True, command = CmdAddTicket 2\<rparr>]"]
  show ?thesis by simp
qed

text \<open>C34: granting a ticket to a member who had none and letting the member redeem it on a
  non-empty pool brings the balance back to 0, removes one reward from the pool and appends
  one history entry naming the member (spec, section 8).\<close>

theorem grant_then_redeem:
  assumes "store_ok s" and "tickets s u = None" and "remaining s \<noteq> []"
  shows "\<exists>r s'. run s [\<lparr>caller = a, is_admin = True, command = CmdAddTicket u\<rparr>,
                    \<lparr>caller = u, is_admin = b, command = CmdGacha k\<rparr>]
               = (s', [Replied (TicketAdded u), Replied (Won r)])
           \<and> tickets s' u = Some 0 \<and> r \<in> set (remaining s)
           \<and> Suc (length (remaining s')) = length (remaining s)
           \<and> history s' = history s @ [HistEntry (nat_str u) r]"
proof -
  let ?s1 = "s\<lparr>tickets := (tickets s)(u \<mapsto> 1)\<rparr>"
  let ?r = "py_choice (remaining s) k"
  from assms(1) have ok: "counters_ok (tickets s)" by (simp add: store_ok_def)
  with assms(2) have h1: "handle \<lparr>caller = a, is_admin = True, command = CmdAddTicket u\<rparr> s
                    = (?s1, Replied (TicketAdded u))"
    by (simp add: handle_def admin_only_def run_command_def add_ticket_eq int64_max_def)
  from ok assms(2) have "counters_ok (tickets ?s1)" by (simp add: counters_ok_upd int64_max_def)
  with assms(3) have h2: "handle \<lparr>caller = u, is_admin = b, command = CmdGacha k\<rparr> ?s1
                    = (gacha_won_store u ?r ?s1, Replied (Won ?r))"
    by (simp add: handle_def admin_only_def run_command_def gacha_eq)
  have "?r \<in> set (remaining s)" using assms(3) by simp
  with h1 h2 show ?thesis
    by (simp add: gacha_won_store_def length_remove1_in)
qed

theorem grant_then_redeem_witness:
  "store_ok (empty_store\<lparr>remaining := [''4'']\<rparr>)
   \<and> (\<exists>r s'. run (empty_store\<lparr>remaining := [''4'']\<rparr>)
         [\<lparr>caller = 1, is_admin = True, command = CmdAddTicket 6\<rparr>,
          \<lparr>caller = 6, is_admin = False, command = CmdGacha 0\<rparr>]
        = (s', [Replied (TicketAdded 6), Replied (Won r)])
      \<and> tickets s' 6 = Some 0 \<and> r \<in> set [''4''] \<and> Suc (length (remaining s')) = 1
      \<and> history s' = [HistEntry (nat_str 6) r])"
proof -
  have ok: "store_ok (empty_store\<lparr>remaining := [''4'']\<rparr>)"
    by (simp add: store_ok_def empty_store_def initial_rewards_def)
  from grant_then_redeem [OF ok, of 6 1 False 0] ok show ?thesis
    by (simp add: empty_store_def)
qed

text \<open>C35: crediting 10 shards to a member with no balance and then debiting 15 gives the
  total 10 and then a refusal, and the balance stays 10 (spec, section 8).\<close>

theorem shards_overdraft_scenario:
  assumes "store_ok s" and "shards s u = None"
  shows "run s [\<lparr>caller = a, is_admin = True, command = CmdGiveShards u 10\<rparr>,
                \<lparr>caller = a, is_admin = True, command = CmdRemoveShards u 15\<rparr>]
         = (s\<lparr>shards := (shards s)(u \<mapsto> 10)\<rparr>,
            [Replied (ShardsGiven 10 u 10), Replied (ShardsTooFew u 10 15)])"
proof -
  from assms(1) have ok: "counters_ok (shards s)" by (simp add: store_ok_def)
  then have ok1: "counters_ok (shards (s\<lparr>shards := (shards s)(u \<mapsto> 10)\<rparr>))"
    by (simp add: counters_ok_upd int64_max_def)
  from ok ok1 assms(2) show ?thesis
    by (simp add: handle_def admin_only_def run_command_def give_shards_eq remove_shards_eq
        in_int64_def int64_min_def int64_max_def)
qed

theorem shards_overdraft_scenario_witness:
  "store_ok empty_store \<and> shards empty_store 8 = None
   \<and> run empty_store [\<lparr>caller = 1, is_admin = True, command = CmdGiveShards 8 10\<rparr>,
                      \<lparr>caller = 1, is_admin = True, command = CmdRemoveShards 8 15\<rparr>]
       = (empty_store\<lparr>shards := [8 \<mapsto> 10]\<rparr>,
          [Replied (ShardsGiven 10 8 10), Replied (ShardsTooFew 8 10 15)])"
  using store_ok_empty shards_overdraft_scenario [OF store_ok_empty, of 8 1]
  by (simp add: empty_store_def)


text \<open>C19: the history entry a win appends, once written by \<open>json.dumps\<close> and read back by
  \<open>json.loads\<close> in \<open>rewards\<close> or \<open>last_winners\<close>, names the winner (its user field
  reads back with \<open>int()\<close> as the caller's id) and the reward awarded.\<close>

theorem win_record_readable:
  assumes "gacha u k s = Inr (s', Won r)"
  shows "\<exists>e. history s' = history s @ [e]
             \<and> (case json_loads_entry (json_dumps_entry e) of
                  None \<Rightarrow> False
                | Some h \<Rightarrow> py_int (entry_user h) = Some (int u) \<and> entry_reward h = r)"
  using assms
proof (cases rule: gacha_Inr_cases)
  case won
  then show ?thesis
    by (simp add: gacha_won_store_def json_loads_dumps py_int_nat_str_eq)
qed simp_all

theorem win_record_readable_witness:
  "gacha 1 0 \<lparr>tickets = [1 \<mapsto> 1], shards = Map.empty, remaining = [''5''], history = []\<rparr>
     = Inr (\<lparr>tickets = [1 \<mapsto> 0], shards = Map.empty, remaining = [],
             history = [HistEntry ''1'' ''5'']\<rparr>, Won ''5'')
   \<and> (\<exists>e. [HistEntry ''1'' ''5''] = [] @ [e]
         \<and> (case json_loads_entry (json_dumps_entry e) of
              None \<Rightarrow> False
            | Some h \<Rightarrow> py_int (entry_user h) = Some (int 1) \<and> entry_reward h = ''5''))"
proof -
  let ?s = "\<lparr>tickets = [1 \<mapsto> 1], shards = Map.empty, remaining = [''5''], history = []\<rparr>"
  let ?s' = "\<lparr>tickets = [1 \<mapsto> 0], shards = Map.empty, remaining = [],
               history = [HistEntry ''1'' ''5'']\<rparr>"
  have c: "counters_ok [1 \<mapsto> (1::int)]" by (simp add: counters_ok_def int64_max_def)
  have n: "nat_str 1 = ''1''" by code_simp
  have g: "gacha 1 0 ?s = Inr (?s', Won ''5'')"
    using c n by (simp add: gacha_eq gacha_won_store_def py_choice_def)
  from win_record_readable [OF g] g show ?thesis by simp
qed

end
